theory Spec2Isabelle
  imports Complex_Main
begin

section \<open>Leaf registry: Variable and Parameter\<close>

text \<open>
  A Python object has an identity apart from its attribute values. Each leaf carries the
  address it was allocated at (\<open>oid\<close>); the \<open>in\<close> test of the source, on classes that
  define no \<open>__eq__\<close>, compares these addresses. \<open>T.vector(name)\<close> and \<open>T.scalar(name)\<close>
  make one fresh symbolic input per leaf object, so the handle is the kind of the input
  together with its owner's address and name.
\<close>

datatype tvar = TVector nat string | TScalar nat string

record Variable =
  oid :: nat
  name :: string
  label :: string

record Parameter =
  oid :: nat
  name :: string
  label :: string
  lower :: "real option"
  upper :: "real option"

text \<open>\<open>if label:\<close> is false for \<open>None\<close> and for the empty string.\<close>

definition truthy :: "string option \<Rightarrow> bool" where
  "truthy lbl = (case lbl of None \<Rightarrow> False | Some l \<Rightarrow> l \<noteq> [])"

definition Variable_init :: "nat \<Rightarrow> string \<Rightarrow> string option \<Rightarrow> Variable" where
  "Variable_init a nm lbl =
     \<lparr>Variable.oid = a, name = nm, label = (if truthy lbl then the lbl else nm)\<rparr>"

definition Variable_tvar :: "Variable \<Rightarrow> tvar" where
  "Variable_tvar v = TVector (Variable.oid v) (Variable.name v)"

definition Parameter_init ::
  "nat \<Rightarrow> string \<Rightarrow> string option \<Rightarrow> real option \<Rightarrow> real option \<Rightarrow> Parameter" where
  "Parameter_init a nm lbl lo up =
     \<lparr>Parameter.oid = a, name = nm, label = (if truthy lbl then the lbl else nm),
      lower = lo, upper = up\<rparr>"

definition Parameter_tvar :: "Parameter \<Rightarrow> tvar" where
  "Parameter_tvar p = TScalar (Parameter.oid p) (Parameter.name p)"

definition var :: "nat \<Rightarrow> string \<Rightarrow> string option \<Rightarrow> Variable" where
  "var a nm lbl = Variable_init a nm lbl"

definition par ::
  "nat \<Rightarrow> string \<Rightarrow> string option \<Rightarrow> real option \<Rightarrow> real option \<Rightarrow> Parameter" where
  "par a nm lbl lo up = Parameter_init a nm lbl lo up"

section \<open>Symbolic expressions and their elementwise meaning\<close>

text \<open>
  Numbers are reals extended with the two infinities and NaN, with the range of a 64-bit
  float where the source multiplies or exponentiates: a product or an exponential at
  least \<open>overflow_at\<close> in size is an infinity, one at most \<open>underflow_at\<close> (half the
  smallest subnormal) is zero. Rounding within the range is outside the model, and sums,
  differences, quotients, roots and logarithms are taken exact. Comparisons yield 0 or 1.
\<close>

datatype val = Fin real | PInf | NInf | NaN

definition overflow_at :: real where
  "overflow_at = 2 ^ 1024 - 2 ^ 970"

definition underflow_at :: real where
  "underflow_at = 1 / 2 ^ 1075"

definition fl :: "real \<Rightarrow> val" where
  "fl r = (if overflow_at \<le> r then PInf
           else if r \<le> - overflow_at then NInf
           else if \<bar>r\<bar> \<le> underflow_at then Fin 0
           else Fin r)"

datatype texpr =
    Leaf tvar
  | Const val
  | Add texpr texpr
  | Sub texpr texpr
  | Mul texpr texpr
  | Div texpr texpr
  | TPow texpr nat
  | Sqrt texpr
  | Log texpr
  | Exp texpr
  | Gt texpr texpr
  | Lt texpr texpr
  | Switch texpr texpr texpr

fun vsign :: "val \<Rightarrow> real" where
  "vsign (Fin a) = sgn a"
| "vsign PInf = 1"
| "vsign NInf = - 1"
| "vsign NaN = 0"

definition inf_of_sign :: "real \<Rightarrow> val" where
  "inf_of_sign s = (if 0 < s then PInf else if s < 0 then NInf else NaN)"

fun vneg :: "val \<Rightarrow> val" where
  "vneg (Fin a) = Fin (- a)"
| "vneg PInf = NInf"
| "vneg NInf = PInf"
| "vneg NaN = NaN"

fun vadd :: "val \<Rightarrow> val \<Rightarrow> val" where
  "vadd (Fin a) (Fin b) = Fin (a + b)"
| "vadd NaN _ = NaN"
| "vadd _ NaN = NaN"
| "vadd PInf NInf = NaN"
| "vadd NInf PInf = NaN"
| "vadd PInf _ = PInf"
| "vadd _ PInf = PInf"
| "vadd NInf _ = NInf"
| "vadd _ NInf = NInf"

definition vsub :: "val \<Rightarrow> val \<Rightarrow> val" where
  "vsub a b = vadd a (vneg b)"

fun vmul :: "val \<Rightarrow> val \<Rightarrow> val" where
  "vmul (Fin a) (Fin b) = fl (a * b)"
| "vmul NaN _ = NaN"
| "vmul _ NaN = NaN"
| "vmul a b = inf_of_sign (vsign a * vsign b)"

fun vdiv :: "val \<Rightarrow> val \<Rightarrow> val" where
  "vdiv (Fin a) (Fin b) = (if b \<noteq> 0 then Fin (a / b) else inf_of_sign a)"
| "vdiv NaN _ = NaN"
| "vdiv _ NaN = NaN"
| "vdiv (Fin a) _ = Fin 0"
| "vdiv a (Fin b) = inf_of_sign (vsign a * (if b < 0 then - 1 else 1))"
| "vdiv _ _ = NaN"

fun vpow :: "val \<Rightarrow> nat \<Rightarrow> val" where
  "vpow v 0 = Fin 1"
| "vpow v (Suc n) = vmul v (vpow v n)"

fun vsqrt :: "val \<Rightarrow> val" where
  "vsqrt (Fin a) = (if 0 \<le> a then Fin (sqrt a) else NaN)"
| "vsqrt PInf = PInf"
| "vsqrt _ = NaN"

fun vlog :: "val \<Rightarrow> val" where
  "vlog (Fin a) = (if 0 < a then Fin (ln a) else if a = 0 then NInf else NaN)"
| "vlog PInf = PInf"
| "vlog _ = NaN"

fun vexp :: "val \<Rightarrow> val" where
  "vexp (Fin a) = fl (exp a)"
| "vexp PInf = PInf"
| "vexp NInf = Fin 0"
| "vexp NaN = NaN"

fun vless :: "val \<Rightarrow> val \<Rightarrow> bool" where
  "vless (Fin a) (Fin b) = (a < b)"
| "vless NaN _ = False"
| "vless _ NaN = False"
| "vless _ NInf = False"
| "vless NInf _ = True"
| "vless PInf _ = False"
| "vless _ PInf = True"

definition bool01 :: "bool \<Rightarrow> val" where
  "bool01 b = (if b then Fin 1 else Fin 0)"

definition vgt :: "val \<Rightarrow> val \<Rightarrow> val" where
  "vgt a b = bool01 (vless b a)"

definition vlt :: "val \<Rightarrow> val \<Rightarrow> val" where
  "vlt a b = bool01 (vless a b)"

definition vswitch :: "val \<Rightarrow> val \<Rightarrow> val \<Rightarrow> val" where
  "vswitch c a b = (if c = Fin 0 then b else a)"

definition lift2 :: "(val \<Rightarrow> val \<Rightarrow> val) \<Rightarrow> val option \<Rightarrow> val option \<Rightarrow> val option" where
  "lift2 f a b = (case a of None \<Rightarrow> None | Some x \<Rightarrow> map_option (f x) b)"

definition lift3 ::
  "(val \<Rightarrow> val \<Rightarrow> val \<Rightarrow> val) \<Rightarrow> val option \<Rightarrow> val option \<Rightarrow> val option \<Rightarrow> val option" where
  "lift3 f a b c = (case a of None \<Rightarrow> None | Some x \<Rightarrow> lift2 (f x) b c)"

text \<open>
  The value of an expression at one dataset row, given the value each leaf has at that
  row (a scalar leaf has the same value at every row). A leaf that is not bound has no
  value, and so has every expression over it.
\<close>

fun eval :: "(tvar \<Rightarrow> val option) \<Rightarrow> texpr \<Rightarrow> val option" where
  "eval \<rho> (Leaf t) = \<rho> t"
| "eval \<rho> (Const c) = Some c"
| "eval \<rho> (Add a b) = lift2 vadd (eval \<rho> a) (eval \<rho> b)"
| "eval \<rho> (Sub a b) = lift2 vsub (eval \<rho> a) (eval \<rho> b)"
| "eval \<rho> (Mul a b) = lift2 vmul (eval \<rho> a) (eval \<rho> b)"
| "eval \<rho> (Div a b) = lift2 vdiv (eval \<rho> a) (eval \<rho> b)"
| "eval \<rho> (TPow a n) = map_option (\<lambda>v. vpow v n) (eval \<rho> a)"
| "eval \<rho> (Sqrt a) = map_option vsqrt (eval \<rho> a)"
| "eval \<rho> (Log a) = map_option vlog (eval \<rho> a)"
| "eval \<rho> (Exp a) = map_option vexp (eval \<rho> a)"
| "eval \<rho> (Gt a b) = lift2 vgt (eval \<rho> a) (eval \<rho> b)"
| "eval \<rho> (Lt a b) = lift2 vlt (eval \<rho> a) (eval \<rho> b)"
| "eval \<rho> (Switch c a b) = lift3 vswitch (eval \<rho> c) (eval \<rho> a) (eval \<rho> b)"

subsection \<open>Support masks: alltrue and bound\<close>

fun alltrue_loop :: "texpr \<Rightarrow> texpr list \<Rightarrow> texpr" where
  "alltrue_loop ret [] = ret"
| "alltrue_loop ret (c # vals) = alltrue_loop (Mul ret (Mul (Const (Fin 1)) c)) vals"

definition alltrue :: "texpr list \<Rightarrow> texpr" where
  "alltrue vals = alltrue_loop (Const (Fin 1)) vals"

definition bound :: "texpr \<Rightarrow> texpr list \<Rightarrow> texpr" where
  "bound logp conditions = Switch (alltrue conditions) logp (Const NInf)"

text \<open>
  The mask as the specification words it: \<open>all(conditions) ? logp : -infinity\<close>, at one
  row, over conditions that are already truth values.
\<close>

definition masked_logp :: "val \<Rightarrow> bool list \<Rightarrow> val" where
  "masked_logp l conds = (if list_all id conds then l else NInf)"

text \<open>
  A number is in the normal range of a 64-bit float when it is zero or at least the
  smallest normal float in size and below the overflow threshold. The intermediate results
  of \<open>Normal.logp\<close>, as the source computes them, at a row where \<open>x\<close>, \<open>mu\<close> and
  \<open>sigma\<close> have the values \<open>xv\<close>, \<open>m\<close> and \<open>s\<close>: first the products the two
  density factors are computed from, then the exponential factor and the product of the
  factors.
\<close>

definition normal_range :: "real \<Rightarrow> bool" where
  "normal_range r = (r = 0 \<or> (1 / 2 ^ 1022 \<le> \<bar>r\<bar> \<and> \<bar>r\<bar> < overflow_at))"

definition Normal_args_in_range :: "real \<Rightarrow> real \<Rightarrow> real \<Rightarrow> bool" where
  "Normal_args_in_range xv m s =
     (normal_range s \<and> normal_range (s\<^sup>2) \<and> normal_range (2 * pi * s\<^sup>2)
      \<and> normal_range (xv - m) \<and> normal_range ((xv - m)\<^sup>2)
      \<and> normal_range (0.5 * (xv - m)\<^sup>2))"

definition Normal_in_range :: "real \<Rightarrow> real \<Rightarrow> real \<Rightarrow> bool" where
  "Normal_in_range xv m s =
     (Normal_args_in_range xv m s
      \<and> normal_range (exp (- 0.5 * (xv - m)\<^sup>2 / s\<^sup>2))
      \<and> normal_range (1 / sqrt (2 * pi * s\<^sup>2) * exp (- 0.5 * (xv - m)\<^sup>2 / s\<^sup>2)))"

section \<open>The composition graph\<close>

text \<open>
  An \<open>OrderedDict\<close> is an association list with unique keys: assigning to a key that is
  present replaces the value where it stands, assigning to a new key appends.
\<close>

fun od_set :: "('k \<times> 'v) list \<Rightarrow> 'k \<Rightarrow> 'v \<Rightarrow> ('k \<times> 'v) list" where
  "od_set [] k v = [(k, v)]"
| "od_set ((k', v') # kvs) k v =
     (if k' = k then (k, v) # kvs else (k', v') # od_set kvs k v)"

abbreviation od_values :: "('k \<times> 'v) list \<Rightarrow> 'v list" where
  "od_values od \<equiv> map snd od"

text \<open>
  \<open>_add_param\<close> stores whatever object it is given that has a \<open>name\<close>: it makes no
  test of the class. What a \<open>param\<close> map holds is therefore a Parameter object or, when
  the caller passed one, a Variable object or an object of another class that has a
  \<open>name\<close> and a \<open>tvar\<close> (here with its identity); \<open>name\<close>, \<open>tvar\<close> and the identity
  are all that is ever read of it.
\<close>

datatype pobj = ParameterObj Parameter | VariableObj Variable | OtherObj nat string tvar

fun pobj_oid :: "pobj \<Rightarrow> nat" where
  "pobj_oid (ParameterObj p) = Parameter.oid p"
| "pobj_oid (VariableObj v) = Variable.oid v"
| "pobj_oid (OtherObj i n t) = i"

fun pobj_name :: "pobj \<Rightarrow> string" where
  "pobj_name (ParameterObj p) = Parameter.name p"
| "pobj_name (VariableObj v) = Variable.name v"
| "pobj_name (OtherObj i n t) = n"

fun pobj_tvar :: "pobj \<Rightarrow> tvar" where
  "pobj_tvar (ParameterObj p) = Parameter_tvar p"
| "pobj_tvar (VariableObj v) = Variable_tvar v"
| "pobj_tvar (OtherObj i n t) = t"

text \<open>
  What a subclass adds to the three maps of \<open>Distribution\<close>: the handles its \<open>logp\<close>
  reads (\<open>x, lower, upper\<close>; \<open>x, mu, sigma\<close>) and, for \<open>Mix2\<close>, \<open>frac\<close> and the two
  component distributions.
\<close>

datatype 'd attrs =
    Uniform tvar tvar tvar
  | Normal tvar tvar tvar
  | Mix2 tvar 'd 'd

datatype Distribution =
  Distribution (did: nat) (var: "(string \<times> Variable) list")
    (param: "(string \<times> pobj) list") (dists: "(string \<times> Distribution) list")
    (attrs: "Distribution attrs")

text \<open>The loop \<open>for par in ret: if par not in unique: unique.append(par)\<close>.\<close>

fun uniq_loop :: "('a \<Rightarrow> nat) \<Rightarrow> 'a list \<Rightarrow> 'a list \<Rightarrow> 'a list" where
  "uniq_loop k [] unique = unique"
| "uniq_loop k (p # ret) unique =
     uniq_loop k ret (if k p \<in> set (map k unique) then unique else unique @ [p])"

fun get_vars :: "Distribution \<Rightarrow> Variable list" where
  "get_vars (Distribution i vs ps ds sc) =
     uniq_loop Variable.oid (od_values vs @ concat (map get_vars (od_values ds))) []"

fun get_params :: "Distribution \<Rightarrow> pobj list" where
  "get_params (Distribution i vs ps ds sc) =
     uniq_loop pobj_oid (od_values ps @ concat (map get_params (od_values ds))) []"

definition get_dists :: "Distribution \<Rightarrow> Distribution list" where
  "get_dists d = od_values (dists d)"

definition get_vars_pars :: "Distribution \<Rightarrow> tvar list \<times> tvar list" where
  "get_vars_pars d = (map Variable_tvar (get_vars d), map pobj_tvar (get_params d))"

text \<open>
  The traversal as the specification words it: every leaf a node registers, the node's
  own before its children's, children in registration order (with repetitions), and the
  list that keeps the first occurrence of every object.
\<close>

fun all_vars :: "Distribution \<Rightarrow> Variable list" where
  "all_vars (Distribution i vs ps ds sc) = od_values vs @ concat (map all_vars (od_values ds))"

fun all_params :: "Distribution \<Rightarrow> pobj list" where
  "all_params (Distribution i vs ps ds sc) =
     od_values ps @ concat (map all_params (od_values ds))"

fun first_seen :: "('a \<Rightarrow> nat) \<Rightarrow> 'a list \<Rightarrow> 'a list" where
  "first_seen k [] = []"
| "first_seen k (x # xs) = x # first_seen k (filter (\<lambda>y. k y \<noteq> k x) xs)"

section \<open>The log-likelihood assembler\<close>

fun logp :: "Distribution \<Rightarrow> texpr" where
  "logp (Distribution i vs ps ds (Uniform x lo up)) =
     Log (Div (Const (Fin 1)) (Sub (Leaf up) (Leaf lo)))"
| "logp (Distribution i vs ps ds (Normal x mu sigma)) =
     bound
       (Log (Mul (Div (Const (Fin 1)) (Sqrt (Mul (Const (Fin (2 * pi))) (TPow (Leaf sigma) 2))))
                 (Exp (Div (Mul (Const (Fin (- 0.5))) (TPow (Sub (Leaf x) (Leaf mu)) 2))
                           (TPow (Leaf sigma) 2)))))
       [Gt (Leaf sigma) (Const (Fin 0))]"
| "logp (Distribution i vs ps ds (Mix2 fr dist1 dist2)) =
     bound
       (Log (Add (Mul (Leaf fr) (Exp (logp dist1)))
                 (Mul (Sub (Const (Fin 1)) (Leaf fr)) (Exp (logp dist2)))))
       [Gt (Leaf fr) (Const (Fin 0)), Lt (Leaf fr) (Const (Fin 1))]"

section \<open>Construction\<close>

text \<open>
  A constructor argument that stands for a parameter is whatever the caller passes: a
  number (the defaults of the signatures are the integers 0 and 1), a Parameter object, a
  Variable object, or an object of any other class, given by its identity and by its
  \<open>name\<close> and \<open>tvar\<close> attributes where it has them. Reading an attribute that an object
  does not have raises \<open>AttributeError\<close>; \<open>_add_param\<close> reads \<open>name\<close>, then
  \<open>tvar\<close>. The first argument of every constructor here is the address of the object
  being made.
\<close>

datatype pyarg =
    PyInt int
  | PyParameter Parameter
  | PyVariable Variable
  | PyObject nat "string option" "tvar option"

datatype error =
    ValueError string
  | AttributeError string
  | TypeError string
  | UnusedInputError tvar
  | MissingInputError tvar

definition add_var ::
  "(string \<times> Variable) list \<Rightarrow> Variable \<Rightarrow> (string \<times> Variable) list \<times> tvar" where
  "add_var vs v = (od_set vs (Variable.name v) v, Variable_tvar v)"

fun add_param ::
  "(string \<times> pobj) list \<Rightarrow> pyarg \<Rightarrow> real option \<Rightarrow> real option
     \<Rightarrow> error + ((string \<times> pobj) list \<times> tvar)" where
  "add_param ps (PyInt n) enforce_lower enforce_upper = Inl (AttributeError ''name'')"
| "add_param ps (PyParameter p) enforce_lower enforce_upper =
     Inr (od_set ps (Parameter.name p) (ParameterObj p), Parameter_tvar p)"
| "add_param ps (PyVariable v) enforce_lower enforce_upper =
     Inr (od_set ps (Variable.name v) (VariableObj v), Variable_tvar v)"
| "add_param ps (PyObject i None t) enforce_lower enforce_upper = Inl (AttributeError ''name'')"
| "add_param ps (PyObject i (Some n) None) enforce_lower enforce_upper =
     Inl (AttributeError ''tvar'')"
| "add_param ps (PyObject i (Some n) (Some t)) enforce_lower enforce_upper =
     Inr (od_set ps n (OtherObj i n t), t)"


definition add_dist ::
  "(string \<times> Distribution) list \<Rightarrow> Distribution \<Rightarrow> string
     \<Rightarrow> (string \<times> Distribution) list \<times> Distribution" where
  "add_dist ds d nm = (od_set ds nm d, d)"

definition or_default :: "pyarg \<Rightarrow> pyarg option \<Rightarrow> pyarg" where
  "or_default dflt arg = (case arg of None \<Rightarrow> dflt | Some a \<Rightarrow> a)"

definition Uniform_init ::
  "nat \<Rightarrow> Variable \<Rightarrow> pyarg option \<Rightarrow> pyarg option \<Rightarrow> error + Distribution" where
  "Uniform_init a x lo up =
     (let (vs, xt) = add_var [] x in
      case add_param [] (or_default (PyInt 0) lo) None None of
        Inl e \<Rightarrow> Inl e
      | Inr (ps1, lt) \<Rightarrow>
          (case add_param ps1 (or_default (PyInt 1) up) None None of
             Inl e \<Rightarrow> Inl e
           | Inr (ps2, ut) \<Rightarrow> Inr (Distribution a vs ps2 [] (Uniform xt lt ut))))"


definition Mix2_init ::
  "nat \<Rightarrow> pyarg \<Rightarrow> Distribution \<Rightarrow> Distribution \<Rightarrow> error + Distribution" where
  "Mix2_init a fr dist1 dist2 =
     (case add_param [] fr None None of
        Inl e \<Rightarrow> Inl e
      | Inr (ps, ft) \<Rightarrow>
          (let (ds1, d1) = add_dist [] dist1 ''dist1'';
               (ds2, d2) = add_dist ds1 dist2 ''dist2''
           in Inr (Distribution a [] ps ds2 (Mix2 ft d1 d2))))"

section \<open>Compilation\<close>

text \<open>
  Modelled from the spec: the differentiation and compilation engine is an external
  collaborator (sections 6 and 7). Given the list of leaf handles and the expression, it
  produces a callable that binds its arguments to the handles by position and evaluates
  the expression elementwise over vector-valued leaves, reduced by summation. A scalar
  broadcasts over the rows; vectors that meet must have one length. The engine fails,
  and its error propagates (section 7): at compilation, as \<open>theano.function\<close> does with
  its default \<open>on_unused_input='raise'\<close>, when a handle is listed twice, when a listed
  handle does not occur in the expression (an unused input) or when a leaf of the
  expression is not listed (a missing input), checked in this order; at a call when the
  number of arguments or the rank of an argument is not that of the handles, or when
  vectors of different lengths meet.
\<close>

datatype tensor = Scalar val | Vector "val list"

datatype shape = Shape0 | Shape1 nat

fun tshape :: "tensor \<Rightarrow> shape" where
  "tshape (Scalar v) = Shape0"
| "tshape (Vector xs) = Shape1 (length xs)"

fun join :: "shape option \<Rightarrow> shape option \<Rightarrow> shape option" where
  "join None _ = None"
| "join _ None = None"
| "join (Some Shape0) s = s"
| "join s (Some Shape0) = s"
| "join (Some (Shape1 n)) (Some (Shape1 m)) = (if n = m then Some (Shape1 n) else None)"

fun shape_of :: "(tvar \<Rightarrow> tensor option) \<Rightarrow> texpr \<Rightarrow> shape option" where
  "shape_of env (Leaf t) = map_option tshape (env t)"
| "shape_of env (Const c) = Some Shape0"
| "shape_of env (Add a b) = join (shape_of env a) (shape_of env b)"
| "shape_of env (Sub a b) = join (shape_of env a) (shape_of env b)"
| "shape_of env (Mul a b) = join (shape_of env a) (shape_of env b)"
| "shape_of env (Div a b) = join (shape_of env a) (shape_of env b)"
| "shape_of env (TPow a n) = shape_of env a"
| "shape_of env (Sqrt a) = shape_of env a"
| "shape_of env (Log a) = shape_of env a"
| "shape_of env (Exp a) = shape_of env a"
| "shape_of env (Gt a b) = join (shape_of env a) (shape_of env b)"
| "shape_of env (Lt a b) = join (shape_of env a) (shape_of env b)"
| "shape_of env (Switch c a b) = join (shape_of env c) (join (shape_of env a) (shape_of env b))"

fun row :: "tensor \<Rightarrow> nat \<Rightarrow> val option" where
  "row (Scalar v) i = Some v"
| "row (Vector xs) i = (if i < length xs then Some (xs ! i) else None)"

definition row_env :: "(tvar \<Rightarrow> tensor option) \<Rightarrow> nat \<Rightarrow> tvar \<Rightarrow> val option" where
  "row_env env i t = (case env t of None \<Rightarrow> None | Some x \<Rightarrow> row x i)"

definition tensor_of :: "(tvar \<Rightarrow> tensor option) \<Rightarrow> texpr \<Rightarrow> tensor option" where
  "tensor_of env e =
     (case shape_of env e of
        None \<Rightarrow> None
      | Some Shape0 \<Rightarrow> map_option Scalar (eval (row_env env 0) e)
      | Some (Shape1 n) \<Rightarrow>
          map_option Vector (those (map (\<lambda>i. eval (row_env env i) e) [0..<n])))"

fun T_sum :: "tensor \<Rightarrow> val" where
  "T_sum (Scalar v) = v"
| "T_sum (Vector xs) = foldl vadd (Fin 0) xs"

text \<open>The one form of cost the source compiles: \<open>-T.sum(e)\<close>.\<close>

datatype cost = NegSum texpr

fun leaves :: "texpr \<Rightarrow> tvar list" where
  "leaves (Leaf t) = [t]"
| "leaves (Const c) = []"
| "leaves (Add a b) = leaves a @ leaves b"
| "leaves (Sub a b) = leaves a @ leaves b"
| "leaves (Mul a b) = leaves a @ leaves b"
| "leaves (Div a b) = leaves a @ leaves b"
| "leaves (TPow a n) = leaves a"
| "leaves (Sqrt a) = leaves a"
| "leaves (Log a) = leaves a"
| "leaves (Exp a) = leaves a"
| "leaves (Gt a b) = leaves a @ leaves b"
| "leaves (Lt a b) = leaves a @ leaves b"
| "leaves (Switch c a b) = leaves c @ leaves a @ leaves b"

fun rank_ok :: "tvar \<Rightarrow> tensor \<Rightarrow> bool" where
  "rank_ok (TVector a nm) (Vector xs) = True"
| "rank_ok (TScalar a nm) (Scalar v) = True"
| "rank_ok _ _ = False"

type_synonym callable = "tensor list \<Rightarrow> error + val"

definition call :: "tvar list \<Rightarrow> texpr \<Rightarrow> callable" where
  "call inputs e args =
     (if length args \<noteq> length inputs then Inl (TypeError ''Wrong number of arguments'')
      else if \<not> list_all2 rank_ok inputs args then Inl (TypeError ''Wrong number of dimensions'')
      else (case tensor_of (map_of (zip inputs args)) e of
              None \<Rightarrow> Inl (ValueError ''Input dimension mis-match'')
            | Some t \<Rightarrow> Inr (vneg (T_sum t))))"

fun theano_function :: "tvar list \<Rightarrow> cost \<Rightarrow> error + callable" where
  "theano_function inputs (NegSum e) =
     (case find (\<lambda>t. 1 < count_list inputs t) inputs of
        Some t \<Rightarrow> Inl (UnusedInputError t)
      | None \<Rightarrow>
          (case find (\<lambda>t. t \<notin> set (leaves e)) inputs of
             Some t \<Rightarrow> Inl (UnusedInputError t)
           | None \<Rightarrow>
               (case find (\<lambda>t. t \<notin> set inputs) (leaves e) of
                  Some t \<Rightarrow> Inl (MissingInputError t)
                | None \<Rightarrow> Inr (call inputs e))))"

text \<open>
  \<open>function(inputs, T.grad(cost, wrt))\<close> is a parameter of the model: symbolic
  differentiation is the engine's own. It fails or returns the callable of the gradient.
\<close>

type_synonym grad_callable = "tensor list \<Rightarrow> error + val list"

type_synonym grad_engine = "tvar list \<Rightarrow> cost \<Rightarrow> tvar list \<Rightarrow> error + grad_callable"

text \<open>
  What a process can observe of compilation and fitting: the messages logged, each
  compilation the engine completed (for which instance, which method) and each run of
  the minimizer. A compilation in which the engine raises leaves its log message only.
  The cache of compiled callables belongs to the instances.
\<close>

datatype event = Logged string | Compiled nat string | Minimized nat

record state =
  logp_cache :: "nat \<Rightarrow> callable option"
  grad_cache :: "nat \<Rightarrow> grad_callable option"
  trace :: "event list"

definition init_state :: state where
  "init_state = \<lparr>logp_cache = (\<lambda>k. None), grad_cache = (\<lambda>k. None), trace = []\<rparr>"

text \<open>
  Modelled from the spec: the decorator \<open>memoize\<close> is imported from a module of the
  repository that is not among the sources. Section 4.4: the callable is compiled
  lazily on first call; subsequent calls on the same instance return the cached
  callable without recompiling; the caching key is the instance itself, by identity.
  An error of the decorated method propagates, and nothing is cached.
\<close>

definition memoize ::
  "(state \<Rightarrow> nat \<Rightarrow> 'c option) \<Rightarrow> (nat \<Rightarrow> 'c \<Rightarrow> state \<Rightarrow> state)
     \<Rightarrow> (Distribution \<Rightarrow> state \<Rightarrow> (error + 'c) \<times> state)
     \<Rightarrow> Distribution \<Rightarrow> state \<Rightarrow> (error + 'c) \<times> state" where
  "memoize get put f d st =
     (case get st (did d) of
        Some c \<Rightarrow> (Inr c, st)
      | None \<Rightarrow>
          (case f d st of
             (Inl e, st') \<Rightarrow> (Inl e, st')
           | (Inr c, st') \<Rightarrow> (Inr c, put (did d) c st')))"

definition emit :: "event \<Rightarrow> state \<Rightarrow> state" where
  "emit ev st = st\<lparr>trace := trace st @ [ev]\<rparr>"

definition put_logp :: "nat \<Rightarrow> callable \<Rightarrow> state \<Rightarrow> state" where
  "put_logp k c st = st\<lparr>logp_cache := (logp_cache st)(k \<mapsto> c)\<rparr>"

definition put_grad :: "nat \<Rightarrow> grad_callable \<Rightarrow> state \<Rightarrow> state" where
  "put_grad k c st = st\<lparr>grad_cache := (grad_cache st)(k \<mapsto> c)\<rparr>"

definition logp_body :: "Distribution \<Rightarrow> state \<Rightarrow> (error + callable) \<times> state" where
  "logp_body d st =
     (let st1 = emit (Logged ''Compiling logp...'') st;
          (vars, pars) = get_vars_pars d
      in case theano_function (vars @ pars) (NegSum (logp d)) of
           Inl e \<Rightarrow> (Inl e, st1)
         | Inr c \<Rightarrow> (Inr c, emit (Compiled (did d) ''logp_compiled'') st1))"

definition logp_compiled :: "Distribution \<Rightarrow> state \<Rightarrow> (error + callable) \<times> state" where
  "logp_compiled = memoize logp_cache put_logp logp_body"

definition grad_body ::
  "grad_engine \<Rightarrow> Distribution \<Rightarrow> state \<Rightarrow> (error + grad_callable) \<times> state" where
  "grad_body G d st =
     (let st1 = emit (Logged ''Compiling grad_logp...'') st;
          (vars, pars) = get_vars_pars d
      in case G (vars @ pars) (NegSum (logp d)) pars of
           Inl e \<Rightarrow> (Inl e, st1)
         | Inr c \<Rightarrow> (Inr c, emit (Compiled (did d) ''grad_compiled'') st1))"

definition grad_compiled ::
  "grad_engine \<Rightarrow> Distribution \<Rightarrow> state \<Rightarrow> (error + grad_callable) \<times> state" where
  "grad_compiled G = memoize grad_cache put_grad (grad_body G)"

section \<open>The fit pipeline\<close>

fun data_args_loop ::
  "Variable list \<Rightarrow> (string \<rightharpoonup> tensor) \<Rightarrow> tensor list \<Rightarrow> error + tensor list" where
  "data_args_loop [] data data_args = Inr data_args"
| "data_args_loop (v # variables) data data_args =
     (case data (Variable.name v) of
        None \<Rightarrow>
          Inl (ValueError (''Random variable '' @ Variable.name v
                 @ '' required by model not found in dataset''))
      | Some col \<Rightarrow> data_args_loop variables data (data_args @ [col]))"

fun x0_loop :: "pobj list \<Rightarrow> (string \<rightharpoonup> val) \<Rightarrow> val list \<Rightarrow> error + val list" where
  "x0_loop [] init x0 = Inr x0"
| "x0_loop (p # parameters) init x0 =
     (case init (pobj_name p) of
        None \<Rightarrow> Inl (ValueError (''No initial value specified for Parameter '' @ pobj_name p))
      | Some v \<Rightarrow> x0_loop parameters init (x0 @ [v]))"

text \<open>
  The minimizer is external: a parameter of the model, from the objective closure, the
  gradient closure and the initial vector to the solution vector and the rest of its
  result object, or to the error it raises or lets through from a closure.
\<close>

type_synonym 'r minimizer =
  "(val list \<Rightarrow> error + val) \<Rightarrow> (val list \<Rightarrow> error + val list) \<Rightarrow> val list
     \<Rightarrow> error + val list \<times> 'r"

fun ret_loop :: "(pobj \<times> val) list \<Rightarrow> (string \<rightharpoonup> val) \<Rightarrow> (string \<rightharpoonup> val)" where
  "ret_loop [] ret = ret"
| "ret_loop ((p, v) # rest) ret = ret_loop rest (ret(pobj_name p \<mapsto> v))"

definition fit ::
  "'r minimizer \<Rightarrow> grad_engine \<Rightarrow> Distribution \<Rightarrow> (string \<rightharpoonup> tensor) \<Rightarrow> (string \<rightharpoonup> val)
     \<Rightarrow> state \<Rightarrow> (error + (string \<rightharpoonup> val) \<times> 'r) \<times> state" where
  "fit minimize G d data init st =
     (let variables = get_vars d; parameters = get_params d in
      case data_args_loop variables data [] of
        Inl e \<Rightarrow> (Inl e, st)
      | Inr data_args \<Rightarrow>
          (case x0_loop parameters init [] of
             Inl e \<Rightarrow> (Inl e, st)
           | Inr x0 \<Rightarrow>
               (case logp_compiled d st of
                  (Inl e, st1) \<Rightarrow> (Inl e, st1)
                | (Inr obj_func, st1) \<Rightarrow>
                    (case grad_compiled G d st1 of
                       (Inl e, st2) \<Rightarrow> (Inl e, st2)
                     | (Inr obj_func_grad, st2) \<Rightarrow>
                         (let func = (\<lambda>pars. obj_func (data_args @ map Scalar pars));
                              func_grad = (\<lambda>pars. obj_func_grad (data_args @ map Scalar pars));
                              st3 = emit (Logged ''Minimizing negative log-likelihood of model...'') st2;
                              st4 = emit (Minimized (did d)) st3
                          in case minimize func func_grad x0 of
                               Inl e \<Rightarrow> (Inl e, st4)
                             | Inr (xs, r) \<Rightarrow>
                                 (Inr (ret_loop (zip parameters xs) Map.empty, r), st4))))))"

section \<open>Models that differ only in parameter bounds\<close>

text \<open>
  Two models are otherwise identical and differ only in the \<open>lower\<close> and \<open>upper\<close> of
  their Parameters when erasing these two fields everywhere in the tree makes them equal.
\<close>

definition strip_p :: "Parameter \<Rightarrow> Parameter" where
  "strip_p p = p\<lparr>lower := None, upper := None\<rparr>"

fun strip_pobj :: "pobj \<Rightarrow> pobj" where
  "strip_pobj (ParameterObj p) = ParameterObj (strip_p p)"
| "strip_pobj (VariableObj v) = VariableObj v"
| "strip_pobj (OtherObj i n t) = OtherObj i n t"

definition strip_od :: "(string \<times> pobj) list \<Rightarrow> (string \<times> pobj) list" where
  "strip_od ps = map (\<lambda>(n, p). (n, strip_pobj p)) ps"

fun strip_bounds :: "Distribution \<Rightarrow> Distribution" where
  "strip_bounds (Distribution i vs ps ds (Uniform x lo up)) =
     Distribution i vs (strip_od ps) (map (\<lambda>(n, c). (n, strip_bounds c)) ds) (Uniform x lo up)"
| "strip_bounds (Distribution i vs ps ds (Normal x mu sigma)) =
     Distribution i vs (strip_od ps) (map (\<lambda>(n, c). (n, strip_bounds c)) ds) (Normal x mu sigma)"
| "strip_bounds (Distribution i vs ps ds (Mix2 fr dist1 dist2)) =
     Distribution i vs (strip_od ps) (map (\<lambda>(n, c). (n, strip_bounds c)) ds)
       (Mix2 fr (strip_bounds dist1) (strip_bounds dist2))"

section \<open>The lifetime of a process\<close>

text \<open>
  What a caller can do with the instances, in any order and any number of times, and the
  state each call leaves behind.
\<close>

datatype call =
    Call_logp_compiled Distribution
  | Call_grad_compiled Distribution
  | Call_fit Distribution "string \<rightharpoonup> tensor" "string \<rightharpoonup> val"

fun step :: "'r minimizer \<Rightarrow> grad_engine \<Rightarrow> state \<Rightarrow> call \<Rightarrow> state" where
  "step minimize G st (Call_logp_compiled d) = snd (logp_compiled d st)"
| "step minimize G st (Call_grad_compiled d) = snd (grad_compiled G d st)"
| "step minimize G st (Call_fit d data init) = snd (fit minimize G d data init st)"

definition run :: "'r minimizer \<Rightarrow> grad_engine \<Rightarrow> call list \<Rightarrow> state \<Rightarrow> state" where
  "run minimize G calls st = foldl (step minimize G) st calls"

text \<open>
  The invariant of the cache: the engine has completed a compilation for an instance and
  a method as many times as the instance holds a cached callable for that method, none or
  one.
\<close>

definition expected_compiles :: "state \<Rightarrow> nat \<Rightarrow> string \<Rightarrow> nat" where
  "expected_compiles st k m =
     (if m = ''logp_compiled'' then (case logp_cache st k of None \<Rightarrow> 0 | Some c \<Rightarrow> 1)
      else if m = ''grad_compiled'' then (case grad_cache st k of None \<Rightarrow> 0 | Some c \<Rightarrow> 1)
      else 0)"

definition cache_inv :: "state \<Rightarrow> bool" where
  "cache_inv st = (\<forall>k m. count_list (trace st) (Compiled k m) = expected_compiles st k m)"

section \<open>Deduplicated collection\<close>

lemma uniq_loop_first_seen:
  "uniq_loop k xs u = u @ first_seen k (filter (\<lambda>x. k x \<notin> k ` set u) xs)"
proof (induction xs arbitrary: u)
  case Nil
  then show ?case by simp
next
  case (Cons x xs)
  show ?case
  proof (cases "k x \<in> k ` set u")
    case True
    then show ?thesis using Cons.IH [of u] by simp
  next
    case False
    have "filter (\<lambda>y. k y \<notin> k ` set (u @ [x])) xs
        = filter (\<lambda>y. k y \<noteq> k x) (filter (\<lambda>y. k y \<notin> k ` set u) xs)"
      unfolding filter_filter by (rule filter_cong) auto
    then show ?thesis using False Cons.IH [of "u @ [x]"] by simp
  qed
qed

lemma filter_first_seen:
  "filter (\<lambda>x. Q (k x)) (first_seen k xs) = first_seen k (filter (\<lambda>x. Q (k x)) xs)"
proof (induction k xs rule: first_seen.induct)
  case (1 k)
  then show ?case by simp
next
  case (2 k x xs)
  let ?ys = "filter (\<lambda>y. k y \<noteq> k x) xs"
  have IH: "filter (\<lambda>x. Q (k x)) (first_seen k ?ys) = first_seen k (filter (\<lambda>x. Q (k x)) ?ys)"
    by (rule 2)
  show ?case
  proof (cases "Q (k x)")
    case True
    have "filter (\<lambda>x. Q (k x)) ?ys = filter (\<lambda>y. k y \<noteq> k x) (filter (\<lambda>x. Q (k x)) xs)"
      unfolding filter_filter by (rule filter_cong) auto
    then show ?thesis using True IH by simp
  next
    case False
    have "filter (\<lambda>x. Q (k x)) ?ys = filter (\<lambda>x. Q (k x)) xs"
      unfolding filter_filter by (rule filter_cong) (use False in auto)
    then show ?thesis using False IH by simp
  qed
qed

lemma keys_first_seen: "k ` set (first_seen k xs) = k ` set xs"
proof (induction k xs rule: first_seen.induct)
  case (1 k)
  then show ?case by simp
next
  case (2 k x xs)
  have "k ` set (first_seen k (x # xs)) = insert (k x) (k ` set (filter (\<lambda>y. k y \<noteq> k x) xs))"
    using 2 by simp
  also have "\<dots> = k ` set (x # xs)"
    by auto
  finally show ?case .
qed

lemma set_first_seen_subset: "set (first_seen k xs) \<subseteq> set xs"
proof (induction k xs rule: first_seen.induct)
  case (1 k)
  then show ?case by simp
next
  case (2 k x xs)
  then show ?case by auto
qed

lemma first_seen_append:
  "first_seen k (xs @ ys) = first_seen k xs @ first_seen k (filter (\<lambda>y. k y \<notin> k ` set xs) ys)"
proof (induction k xs arbitrary: ys rule: first_seen.induct)
  case (1 k)
  then show ?case by simp
next
  case (2 k x xs)
  let ?f = "filter (\<lambda>y. k y \<noteq> k x)"
  have "filter (\<lambda>y. k y \<notin> k ` set (?f xs)) (?f ys) = filter (\<lambda>y. k y \<notin> k ` set (x # xs)) ys"
    unfolding filter_filter by (rule filter_cong) auto
  then show ?case using 2 [of "?f ys"] by simp
qed

lemma distinct_first_seen: "distinct (map k (first_seen k xs))"
proof (induction k xs rule: first_seen.induct)
  case (1 k)
  then show ?case by simp
next
  case (2 k x xs)
  have "k x \<notin> k ` set (first_seen k (filter (\<lambda>y. k y \<noteq> k x) xs))"
    unfolding keys_first_seen by auto
  then show ?case using 2 by simp
qed

lemma first_seen_idem: "first_seen k (first_seen k xs) = first_seen k xs"
proof (induction k xs rule: first_seen.induct)
  case (1 k)
  then show ?case by simp
next
  case (2 k x xs)
  have "filter (\<lambda>y. k y \<noteq> k x) (first_seen k (filter (\<lambda>y. k y \<noteq> k x) xs)) = first_seen k (filter (\<lambda>y. k y \<noteq> k x) xs)"
    by (simp add: filter_first_seen [of "\<lambda>v. v \<noteq> k x"])
  then show ?case using 2 by simp
qed

lemma first_seen_concat_map:
  "first_seen k (xs @ concat (map (first_seen k) yss)) = first_seen k (xs @ concat yss)"
proof (induction yss arbitrary: xs)
  case Nil
  then show ?case by simp
next
  case (Cons ys yss)
  have keys: "k ` set (xs @ first_seen k ys) = k ` set (xs @ ys)"
    by (simp add: image_Un keys_first_seen)
  have head: "first_seen k (xs @ first_seen k ys) = first_seen k (xs @ ys)"
    unfolding first_seen_append [of k xs]
    by (simp add: filter_first_seen [of "\<lambda>v. v \<notin> k ` set xs"] first_seen_idem)
  have "first_seen k (xs @ concat (map (first_seen k) (ys # yss)))
      = first_seen k ((xs @ first_seen k ys) @ concat (map (first_seen k) yss))"
    by simp
  also have "\<dots> = first_seen k ((xs @ first_seen k ys) @ concat yss)"
    by (rule Cons)
  also have "\<dots> = first_seen k (xs @ first_seen k ys)
        @ first_seen k (filter (\<lambda>y. k y \<notin> k ` set (xs @ first_seen k ys)) (concat yss))"
    by (rule first_seen_append)
  also have "\<dots> = first_seen k (xs @ ys)
        @ first_seen k (filter (\<lambda>y. k y \<notin> k ` set (xs @ ys)) (concat yss))"
    unfolding head keys ..
  also have "\<dots> = first_seen k ((xs @ ys) @ concat yss)"
    by (rule first_seen_append [symmetric])
  finally show ?case by simp
qed

lemma get_vars_all_vars: "get_vars d = first_seen Variable.oid (all_vars d)"
proof (induction d rule: get_vars.induct)
  case (1 i vs ps ds sc)
  have "map get_vars (od_values ds) = map (first_seen Variable.oid) (map all_vars (od_values ds))"
    using 1 by simp
  then show ?case
    by (simp add: uniq_loop_first_seen first_seen_concat_map del: map_map)
qed

lemma get_params_all_params: "get_params d = first_seen pobj_oid (all_params d)"
proof (induction d rule: get_params.induct)
  case (1 i vs ps ds sc)
  have "map get_params (od_values ds)
      = map (first_seen pobj_oid) (map all_params (od_values ds))"
    using 1 by simp
  then show ?case
    by (simp add: uniq_loop_first_seen first_seen_concat_map del: map_map)
qed

text \<open>
  An example: a mixture whose two components share the Parameter object \<open>sigma\<close> and
  have two distinct Parameter objects that are both named \<open>mu\<close>. The shared object is
  collected once, the two equally named objects are both collected.
\<close>

lemma get_params_shared_example:
  "map (\<lambda>p. (pobj_oid p, pobj_name p))
     (get_params
        (Distribution 0 []
           [(''frac'', ParameterObj \<lparr>Parameter.oid = 1, name = ''frac'', label = ''frac'', lower = None, upper = None\<rparr>)]
           [(''dist1'', Distribution 10 [(''x'', \<lparr>Variable.oid = 9, name = ''x'', label = ''x''\<rparr>)]
               [(''mu'', ParameterObj \<lparr>Parameter.oid = 2, name = ''mu'', label = ''mu'', lower = None, upper = None\<rparr>),
                (''sigma'', ParameterObj \<lparr>Parameter.oid = 3, name = ''sigma'', label = ''sigma'', lower = None, upper = None\<rparr>)]
               [] (Normal (TVector 9 ''x'') (TScalar 2 ''mu'') (TScalar 3 ''sigma''))),
            (''dist2'', Distribution 11 [(''x'', \<lparr>Variable.oid = 9, name = ''x'', label = ''x''\<rparr>)]
               [(''mu'', ParameterObj \<lparr>Parameter.oid = 4, name = ''mu'', label = ''mu'', lower = None, upper = None\<rparr>),
                (''sigma'', ParameterObj \<lparr>Parameter.oid = 3, name = ''sigma'', label = ''sigma'', lower = None, upper = None\<rparr>)]
               [] (Normal (TVector 9 ''x'') (TScalar 4 ''mu'') (TScalar 3 ''sigma'')))]
           (Mix2 (TScalar 1 ''frac'')
              (Distribution 10 [(''x'', \<lparr>Variable.oid = 9, name = ''x'', label = ''x''\<rparr>)]
                 [(''mu'', ParameterObj \<lparr>Parameter.oid = 2, name = ''mu'', label = ''mu'', lower = None, upper = None\<rparr>),
                  (''sigma'', ParameterObj \<lparr>Parameter.oid = 3, name = ''sigma'', label = ''sigma'', lower = None, upper = None\<rparr>)]
                 [] (Normal (TVector 9 ''x'') (TScalar 2 ''mu'') (TScalar 3 ''sigma'')))
              (Distribution 11 [(''x'', \<lparr>Variable.oid = 9, name = ''x'', label = ''x''\<rparr>)]
                 [(''mu'', ParameterObj \<lparr>Parameter.oid = 4, name = ''mu'', label = ''mu'', lower = None, upper = None\<rparr>),
                  (''sigma'', ParameterObj \<lparr>Parameter.oid = 3, name = ''sigma'', label = ''sigma'', lower = None, upper = None\<rparr>)]
                 [] (Normal (TVector 9 ''x'') (TScalar 4 ''mu'') (TScalar 3 ''sigma''))))))
   = [(1, ''frac''), (2, ''mu''), (3, ''sigma''), (4, ''mu'')]"
  by simp

text \<open>
  C1. For every Distribution tree, \<open>get_vars\<close> and \<open>get_params\<close> return the leaves
  reachable from the root, each object exactly once, compared by identity, in the order
  of first registration depth-first: the list is the first occurrences of the preorder
  traversal (a node's own leaves before its children's, children in registration order),
  it holds no object twice, and it holds exactly the objects of the traversal. Both are
  functions of the immutable tree alone, so a repeated call returns the same list.
\<close>

theorem get_vars_get_params_dedup:
  "get_vars d = first_seen Variable.oid (all_vars d)
   \<and> get_params d = first_seen pobj_oid (all_params d)
   \<and> distinct (map Variable.oid (get_vars d))
   \<and> distinct (map pobj_oid (get_params d))
   \<and> Variable.oid ` set (get_vars d) = Variable.oid ` set (all_vars d)
   \<and> pobj_oid ` set (get_params d) = pobj_oid ` set (all_params d)"
proof -
  have v: "get_vars d = first_seen Variable.oid (all_vars d)"
    by (rule get_vars_all_vars)
  have p: "get_params d = first_seen pobj_oid (all_params d)"
    by (rule get_params_all_params)
  show ?thesis
    unfolding v p by (simp add: distinct_first_seen keys_first_seen)
qed

section \<open>Log-densities\<close>

lemma overflow_at_large: "2 ^ 1023 \<le> overflow_at"
  by (simp add: overflow_at_def)

lemma underflow_at_small: "0 < underflow_at" "underflow_at < 1 / 2 ^ 1022"
  by (simp_all add: underflow_at_def)

lemma fl_Fin: "underflow_at < \<bar>r\<bar> \<Longrightarrow> \<bar>r\<bar> < overflow_at \<Longrightarrow> fl r = Fin r"
  by (auto simp: fl_def)

lemma fl_0 [simp]: "fl 0 = Fin 0"
  using overflow_at_large underflow_at_small(1) by (simp add: fl_def)

lemma fl_1 [simp]: "fl 1 = Fin 1"
proof (rule fl_Fin)
  show "underflow_at < \<bar>1::real\<bar>"
    using underflow_at_small(2) by simp
  have "(1::real) < 2 ^ 1023" by simp
  then show "\<bar>1::real\<bar> < overflow_at"
    using overflow_at_large by simp
qed

lemma fl_normal_range: "normal_range r \<Longrightarrow> fl r = Fin r"
  unfolding normal_range_def
proof (elim disjE conjE)
  assume "r = 0"
  then show ?thesis by simp
next
  assume "1 / 2 ^ 1022 \<le> \<bar>r\<bar>" "\<bar>r\<bar> < overflow_at"
  then show ?thesis
    using underflow_at_small(2) by (intro fl_Fin) simp_all
qed


lemma normal_range_between:
  assumes "1 / 2 ^ 1022 \<le> \<bar>r\<bar>" and "\<bar>r\<bar> \<le> 2 ^ 1000"
  shows "normal_range r"
proof -
  have "(2::real) ^ 1000 < 2 ^ 1023" by simp
  then have "\<bar>r\<bar> < overflow_at"
    using assms(2) overflow_at_large by linarith
  then show ?thesis
    using assms(1) by (simp add: normal_range_def)
qed

lemma eval_alltrue_loop:
  assumes "\<forall>c\<in>set conds. eval \<rho> c = Some (Fin 0) \<or> eval \<rho> c = Some (Fin 1)"
    and "eval \<rho> ret = Some (bool01 b)"
  shows "eval \<rho> (alltrue_loop ret conds)
       = Some (bool01 (b \<and> list_all (\<lambda>c. eval \<rho> c = Some (Fin 1)) conds))"
  using assms
proof (induction conds arbitrary: ret b)
  case Nil
  then show ?case by simp
next
  case (Cons c conds)
  from Cons.prems(1) have c01: "eval \<rho> c = Some (Fin 0) \<or> eval \<rho> c = Some (Fin 1)"
    by simp
  then have c: "eval \<rho> c = Some (bool01 (eval \<rho> c = Some (Fin 1)))"
    by (auto simp: bool01_def)
  have step: "eval \<rho> (Mul ret (Mul (Const (Fin 1)) c))
      = Some (bool01 (b \<and> eval \<rho> c = Some (Fin 1)))"
    using c01 Cons.prems(2) by (auto simp: lift2_def bool01_def)
  have rest: "\<forall>c\<in>set conds. eval \<rho> c = Some (Fin 0) \<or> eval \<rho> c = Some (Fin 1)"
    using Cons.prems(1) by simp
  show ?case
    using Cons.IH [OF rest step] by (simp add: conj_assoc)
qed

lemma eval_bound:
  assumes "\<forall>c\<in>set conditions. eval \<rho> c = Some (Fin 0) \<or> eval \<rho> c = Some (Fin 1)"
  shows "eval \<rho> (bound e conditions)
       = map_option (\<lambda>l. if list_all (\<lambda>c. eval \<rho> c = Some (Fin 1)) conditions then l else NInf)
           (eval \<rho> e)"
proof -
  have one: "eval \<rho> (Const (Fin 1)) = Some (bool01 True)"
    by (simp add: bool01_def)
  have m: "eval \<rho> (alltrue conditions)
      = Some (bool01 (list_all (\<lambda>c. eval \<rho> c = Some (Fin 1)) conditions))"
    unfolding alltrue_def using eval_alltrue_loop [OF assms one] by simp
  show ?thesis
  proof (cases "eval \<rho> e")
    case None
    then show ?thesis by (simp add: bound_def m lift3_def lift2_def)
  next
    case (Some l)
    then show ?thesis
      by (simp add: bound_def m lift3_def lift2_def vswitch_def bool01_def)
  qed
qed

text \<open>
  C2. For every log-density expression and every finite list of conditions that are 0 or
  1 at a row, \<open>bound\<close> (the product of the conditions, then a switch on it) has at that
  row the value of the conditional of the specification: the log-density where all
  conditions hold, negative infinity where one is false.
\<close>

theorem bound_elementwise:
  assumes "\<forall>c\<in>set conditions. eval \<rho> c = Some (Fin 0) \<or> eval \<rho> c = Some (Fin 1)"
  shows "eval \<rho> (bound e conditions)
       = map_option (\<lambda>l. masked_logp l (map (\<lambda>c. eval \<rho> c = Some (Fin 1)) conditions))
           (eval \<rho> e)"
proof -
  have la: "list_all id (map (\<lambda>c. eval \<rho> c = Some (Fin 1)) conditions)
      = list_all (\<lambda>c. eval \<rho> c = Some (Fin 1)) conditions"
    by (simp add: list_all_iff)
  show ?thesis
    unfolding eval_bound [OF assms] masked_logp_def la ..
qed

theorem bound_elementwise_witness:
  "eval (\<lambda>t. Some (Fin 2)) (Gt (Leaf (TScalar 0 ''frac'')) (Const (Fin 0))) = Some (Fin 1)
   \<and> eval (\<lambda>t. Some (Fin 2)) (Lt (Leaf (TScalar 0 ''frac'')) (Const (Fin 1))) = Some (Fin 0)
   \<and> eval (\<lambda>t. Some (Fin 2))
        (bound (Const (Fin 5)) [Gt (Leaf (TScalar 0 ''frac'')) (Const (Fin 0)),
                                Lt (Leaf (TScalar 0 ''frac'')) (Const (Fin 1))])
      = Some NInf"
proof -
  let ?\<rho> = "\<lambda>t::tvar. Some (Fin 2)"
  let ?g = "Gt (Leaf (TScalar 0 ''frac'')) (Const (Fin 0))"
  let ?l = "Lt (Leaf (TScalar 0 ''frac'')) (Const (Fin 1))"
  have g: "eval ?\<rho> ?g = Some (Fin 1)" by (simp add: lift2_def vgt_def bool01_def)
  have l: "eval ?\<rho> ?l = Some (Fin 0)" by (simp add: lift2_def vlt_def bool01_def)
  have h: "\<forall>c\<in>set [?g, ?l]. eval ?\<rho> c = Some (Fin 0) \<or> eval ?\<rho> c = Some (Fin 1)"
    using g l by simp
  show ?thesis
    using bound_elementwise [OF h, of "Const (Fin 5)"] g l by (simp add: masked_logp_def)
qed

lemma bool01_eq_1 [simp]: "bool01 b = Fin 1 \<longleftrightarrow> b"
  by (simp add: bool01_def)

lemma bool01_01: "bool01 b = Fin 0 \<or> bool01 b = Fin 1"
  by (simp add: bool01_def)

lemma vpow_2: "normal_range a \<Longrightarrow> vpow (Fin a) 2 = fl (a\<^sup>2)"
  by (simp add: numeral_2_eq_2 power2_eq_square fl_normal_range)

lemma normal_range_uminus: "normal_range (- r) = normal_range r"
  by (simp add: normal_range_def)

lemma Normal_intermediates:
  assumes s: "0 < s" and r: "Normal_args_in_range xv m s"
  shows "vdiv (Fin 1) (vsqrt (vmul (Fin (2 * pi)) (vpow (Fin s) 2)))
           = Fin (1 / sqrt (2 * pi * s\<^sup>2))"
    and "vdiv (vmul (Fin (- 0.5)) (vpow (vsub (Fin xv) (Fin m)) 2)) (vpow (Fin s) 2)
           = Fin (- 0.5 * (xv - m)\<^sup>2 / s\<^sup>2)"
proof -
  define X where "X = 2 * pi * s\<^sup>2"
  have rs: "normal_range s" "normal_range (s\<^sup>2)" "normal_range X"
    "normal_range (xv - m)" "normal_range ((xv - m)\<^sup>2)" "normal_range (0.5 * (xv - m)\<^sup>2)"
    using r by (simp_all add: Normal_args_in_range_def X_def)
  have Xpos: "0 < X"
    using s by (simp add: X_def)
  have s2: "s\<^sup>2 \<noteq> 0"
    using s by simp
  have p: "vpow (Fin s) 2 = Fin (s\<^sup>2)"
    using rs(1,2) by (simp add: vpow_2 fl_normal_range)
  have "vmul (Fin (2 * pi)) (Fin (s\<^sup>2)) = Fin X"
    using rs(3) by (simp add: fl_normal_range X_def)
  moreover have "vsqrt (Fin X) = Fin (sqrt X)"
    using Xpos by simp
  moreover have "vdiv (Fin 1) (Fin (sqrt X)) = Fin (1 / sqrt X)"
    using Xpos by simp
  ultimately show "vdiv (Fin 1) (vsqrt (vmul (Fin (2 * pi)) (vpow (Fin s) 2)))
           = Fin (1 / sqrt (2 * pi * s\<^sup>2))"
    unfolding p by (simp add: X_def)
  have d: "vsub (Fin xv) (Fin m) = Fin (xv - m)"
    by (simp add: vsub_def)
  have d2: "vpow (Fin (xv - m)) 2 = Fin ((xv - m)\<^sup>2)"
    using rs(4,5) by (simp add: vpow_2 fl_normal_range)
  have "fl (- (0.5 * (xv - m)\<^sup>2)) = Fin (- (0.5 * (xv - m)\<^sup>2))"
    using rs(6) by (intro fl_normal_range) (simp only: normal_range_uminus)
  then have h: "vmul (Fin (- 0.5)) (Fin ((xv - m)\<^sup>2)) = Fin (- 0.5 * (xv - m)\<^sup>2)"
    by simp
  have q: "vdiv (Fin (- 0.5 * (xv - m)\<^sup>2)) (Fin (s\<^sup>2)) = Fin (- 0.5 * (xv - m)\<^sup>2 / s\<^sup>2)"
    using s2 by simp
  show "vdiv (vmul (Fin (- 0.5)) (vpow (vsub (Fin xv) (Fin m)) 2)) (vpow (Fin s) 2)
           = Fin (- 0.5 * (xv - m)\<^sup>2 / s\<^sup>2)"
    unfolding d d2 h p q ..
qed

lemma Normal_density_value:
  assumes s: "0 < s" and r: "Normal_in_range xv m s"
  shows "vlog (vmul (vdiv (Fin 1) (vsqrt (vmul (Fin (2 * pi)) (vpow (Fin s) 2))))
                    (vexp (vdiv (vmul (Fin (- 0.5)) (vpow (vsub (Fin xv) (Fin m)) 2))
                                (vpow (Fin s) 2))))
       = Fin (ln (1 / sqrt (2 * pi * s\<^sup>2)) - 0.5 * (xv - m)\<^sup>2 / s\<^sup>2)"
proof -
  define A where "A = 1 / sqrt (2 * pi * s\<^sup>2)"
  define B where "B = - 0.5 * (xv - m)\<^sup>2 / s\<^sup>2"
  have rs: "Normal_args_in_range xv m s"
    and re: "normal_range (exp B)" and rp: "normal_range (A * exp B)"
    using r by (simp_all add: Normal_in_range_def A_def B_def)
  have Apos: "0 < A"
    using s by (simp add: A_def)
  have d1: "vdiv (Fin 1) (vsqrt (vmul (Fin (2 * pi)) (vpow (Fin s) 2))) = Fin A"
    unfolding A_def by (rule Normal_intermediates(1) [OF s rs])
  have d2: "vdiv (vmul (Fin (- 0.5)) (vpow (vsub (Fin xv) (Fin m)) 2)) (vpow (Fin s) 2) = Fin B"
    unfolding B_def by (rule Normal_intermediates(2) [OF s rs])
  have e: "vexp (Fin B) = Fin (exp B)"
    using re by (simp add: fl_normal_range)
  have pr: "vmul (Fin A) (Fin (exp B)) = Fin (A * exp B)"
    using rp by (simp add: fl_normal_range)
  have prod: "0 < A * exp B"
    using Apos by simp
  have "ln (A * exp B) = ln A + ln (exp B)"
    using Apos by (intro ln_mult_pos) simp_all
  then have ln: "ln (A * exp B) = ln A + B"
    by simp
  have "vlog (Fin (A * exp B)) = Fin (ln A + B)"
    using prod ln by simp
  then show ?thesis
    unfolding d1 d2 e pr by (simp add: A_def B_def)
qed


lemma sqrt_two_pi_bounds: "1 \<le> sqrt (2 * pi)" "sqrt (2 * pi) \<le> 4"
proof -
  have p: "2 \<le> pi" "pi < 4"
    using pi_ge_two pi_less_4 by simp_all
  have "sqrt 1 \<le> sqrt (2 * pi)"
    using p by (intro real_sqrt_le_mono) simp
  then show "1 \<le> sqrt (2 * pi)" by simp
  have "sqrt (2 * pi) \<le> sqrt 16"
    using p by (intro real_sqrt_le_mono) simp
  also have "sqrt 16 = sqrt (4\<^sup>2)" by simp
  also have "\<dots> = 4" by (simp only: real_sqrt_abs)
  finally show "sqrt (2 * pi) \<le> 4" .
qed

lemma normal_range_two_pi: "normal_range (2 * pi)"
  using pi_ge_two pi_less_4 by (intro normal_range_between) simp_all

lemma normal_range_inv_sqrt_two_pi: "normal_range (1 / sqrt (2 * pi))"
proof (rule normal_range_between)
  have "1 / 4 \<le> 1 / sqrt (2 * pi)"
    using sqrt_two_pi_bounds by (intro divide_left_mono) simp_all
  moreover have "(1::real) / 2 ^ 1022 \<le> 1 / 4"
    by simp
  ultimately show "1 / 2 ^ 1022 \<le> \<bar>1 / sqrt (2 * pi)\<bar>"
    by simp
  have "1 / sqrt (2 * pi) \<le> 1"
    using sqrt_two_pi_bounds by simp
  moreover have "0 \<le> 1 / sqrt (2 * pi)"
    by simp
  moreover have "(1::real) \<le> 2 ^ 1000"
    by (rule one_le_power) simp
  ultimately show "\<bar>1 / sqrt (2 * pi)\<bar> \<le> 2 ^ 1000"
    by linarith
qed

lemma Normal_in_range_standard: "Normal_in_range 0 0 1"
proof -
  have one: "normal_range 1"
    by (intro normal_range_between) simp_all
  have zero: "normal_range 0"
    by (simp add: normal_range_def)
  show ?thesis
    using normal_range_two_pi normal_range_inv_sqrt_two_pi one zero
    by (simp add: Normal_in_range_def Normal_args_in_range_def)
qed

lemma Normal_logp_masked:
  assumes "\<rho> x = Some (Fin xv)" and "\<rho> mu = Some (Fin m)" and "\<rho> sigma = Some (Fin s)"
  shows "eval \<rho> (logp (Distribution i vs ps ds (Normal x mu sigma)))
      = Some (if 0 < s
              then vlog (vmul (vdiv (Fin 1) (vsqrt (vmul (Fin (2 * pi)) (vpow (Fin s) 2))))
                    (vexp (vdiv (vmul (Fin (- 0.5)) (vpow (vsub (Fin xv) (Fin m)) 2))
                                (vpow (Fin s) 2))))
              else NInf)"
proof -
  let ?c = "Gt (Leaf sigma) (Const (Fin 0))"
  let ?e = "Log (Mul (Div (Const (Fin 1)) (Sqrt (Mul (Const (Fin (2 * pi))) (TPow (Leaf sigma) 2))))
                 (Exp (Div (Mul (Const (Fin (- 0.5))) (TPow (Sub (Leaf x) (Leaf mu)) 2))
                           (TPow (Leaf sigma) 2))))"
  let ?N = "Distribution i vs ps ds (Normal x mu sigma)"
  have c: "eval \<rho> ?c = Some (bool01 (0 < s))"
    using assms(3) by (simp add: lift2_def vgt_def)
  have h: "\<forall>c\<in>set [?c]. eval \<rho> c = Some (Fin 0) \<or> eval \<rho> c = Some (Fin 1)"
    using c bool01_01 [of "0 < s"] by simp
  have e: "eval \<rho> ?e
      = Some (vlog (vmul (vdiv (Fin 1) (vsqrt (vmul (Fin (2 * pi)) (vpow (Fin s) 2))))
                    (vexp (vdiv (vmul (Fin (- 0.5)) (vpow (vsub (Fin xv) (Fin m)) 2))
                                (vpow (Fin s) 2)))))"
    by (simp only: eval.simps assms lift2_def option.simps option.map)
  have lg: "logp ?N = bound ?e [?c]"
    by simp
  show ?thesis
    unfolding lg eval_bound [OF h] e using c by simp
qed





text \<open>
  C3. For a Mix2 distribution at a row where \<open>frac\<close> is finite and the components have
  log-densities \<open>l1\<close> and \<open>l2\<close> (any values): with \<open>0 < frac < 1\<close> the log-density is
  \<open>log(frac exp(l1) + (1 - frac) exp(l2))\<close>; with \<open>frac \<le> 0\<close> or \<open>frac \<ge> 1\<close> it is negative
  infinity whatever \<open>l1\<close> and \<open>l2\<close> are.
\<close>

theorem Mix2_logp_value:
  assumes "\<rho> fr = Some (Fin f)"
    and "eval \<rho> (logp dist1) = Some l1" and "eval \<rho> (logp dist2) = Some l2"
  shows "eval \<rho> (logp (Distribution i vs ps ds (Mix2 fr dist1 dist2)))
       = Some (if 0 < f \<and> f < 1
               then vlog (vadd (vmul (Fin f) (vexp l1)) (vmul (Fin (1 - f)) (vexp l2)))
               else NInf)"
proof -
  let ?g = "Gt (Leaf fr) (Const (Fin 0))"
  let ?l = "Lt (Leaf fr) (Const (Fin 1))"
  have g: "eval \<rho> ?g = Some (bool01 (0 < f))"
    using assms(1) by (simp add: lift2_def vgt_def)
  have l: "eval \<rho> ?l = Some (bool01 (f < 1))"
    using assms(1) by (simp add: lift2_def vlt_def)
  have h: "\<forall>c\<in>set [?g, ?l]. eval \<rho> c = Some (Fin 0) \<or> eval \<rho> c = Some (Fin 1)"
    using g l bool01_01 [of "0 < f"] bool01_01 [of "f < 1"] by simp
  have e: "eval \<rho> (Log (Add (Mul (Leaf fr) (Exp (logp dist1)))
                 (Mul (Sub (Const (Fin 1)) (Leaf fr)) (Exp (logp dist2)))))
      = Some (vlog (vadd (vmul (Fin f) (vexp l1)) (vmul (Fin (1 - f)) (vexp l2))))"
    using assms by (simp add: lift2_def vsub_def)
  show ?thesis
    unfolding logp.simps eval_bound [OF h] e using g l by simp
qed

theorem Mix2_logp_value_witness:
  "eval (\<lambda>t. Some (Fin (6 / 5)))
     (logp (Distribution 0 [] [] []
        (Mix2 (TScalar 1 ''frac'')
           (Distribution 2 [] [] [] (Uniform (TVector 3 ''x'') (TScalar 4 ''a'') (TScalar 5 ''b'')))
           (Distribution 6 [] [] [] (Uniform (TVector 3 ''x'') (TScalar 4 ''a'') (TScalar 5 ''b''))))))
   = Some NInf"
proof -
  let ?\<rho> = "\<lambda>t::tvar. Some (Fin (6 / 5))"
  let ?u = "\<lambda>k. Distribution k [] [] [] (Uniform (TVector 3 ''x'') (TScalar 4 ''a'') (TScalar 5 ''b''))"
  have u: "eval ?\<rho> (logp (?u k)) = Some PInf" for k
    by (simp add: lift2_def vsub_def inf_of_sign_def)
  have f: "?\<rho> (TScalar 1 ''frac'') = Some (Fin (6 / 5))" by simp
  show ?thesis
    using Mix2_logp_value [where \<rho> = ?\<rho> and fr = "TScalar 1 ''frac''" and f = "6 / 5"
        and i = 0 and vs = "[]" and ps = "[]" and ds = "[]", OF f u u] by simp
qed

section \<open>Uniform, and the defaults of the constructors\<close>

lemma Uniform_init_Parameters:
  "Uniform_init a x (Some (PyParameter pl)) (Some (PyParameter pu))
     = Inr (Distribution a [(Variable.name x, x)]
            (od_set [(Parameter.name pl, ParameterObj pl)] (Parameter.name pu) (ParameterObj pu)) []
            (Uniform (Variable_tvar x) (Parameter_tvar pl) (Parameter_tvar pu)))"
  by (simp add: Uniform_init_def add_var_def or_default_def)













section \<open>Validation in fit\<close>

lemma data_args_loop_find:
  "data_args_loop variables data acc =
     (case find (\<lambda>v. data (Variable.name v) = None) variables of
        Some v \<Rightarrow> Inl (ValueError (''Random variable '' @ Variable.name v
                         @ '' required by model not found in dataset''))
      | None \<Rightarrow> Inr (acc @ map (\<lambda>v. the (data (Variable.name v))) variables))"
proof (induction variables arbitrary: acc)
  case Nil
  then show ?case by simp
next
  case (Cons v variables)
  then show ?case by (cases "data (Variable.name v)") (simp_all split: option.splits)
qed

lemma x0_loop_find:
  "x0_loop parameters init acc =
     (case find (\<lambda>p. init (pobj_name p) = None) parameters of
        Some p \<Rightarrow> Inl (ValueError (''No initial value specified for Parameter ''
                         @ pobj_name p))
      | None \<Rightarrow> Inr (acc @ map (\<lambda>p. the (init (pobj_name p))) parameters))"
proof (induction parameters arbitrary: acc)
  case Nil
  then show ?case by simp
next
  case (Cons p parameters)
  then show ?case by (cases "init (pobj_name p)") (simp_all split: option.splits)
qed

text \<open>
  C7, as the code has it. The variables are checked first, in the order of \<open>get_vars\<close>,
  then the parameters, in the order of \<open>get_params\<close>. If some Variable has a name absent
  from \<open>data\<close>, \<open>fit\<close> raises the missing-variable error naming the first such
  variable. If every Variable's name is present and some Parameter has a name absent from
  \<open>init\<close>, \<open>fit\<close> raises the missing-initial-value error naming the first such
  parameter. In both cases the state of the process is returned as it was: nothing was
  compiled, nothing logged, and the minimizer was not invoked.
\<close>

theorem fit_validation:
  "(find (\<lambda>v. data (Variable.name v) = None) (get_vars d) = Some v \<longrightarrow>
      fit minimize G d data init st
        = (Inl (ValueError (''Random variable '' @ Variable.name v
                   @ '' required by model not found in dataset'')), st))
   \<and> (find (\<lambda>v. data (Variable.name v) = None) (get_vars d) = None
       \<and> find (\<lambda>p. init (pobj_name p) = None) (get_params d) = Some p \<longrightarrow>
      fit minimize G d data init st
        = (Inl (ValueError (''No initial value specified for Parameter ''
                   @ pobj_name p)), st))"
  by (simp add: fit_def data_args_loop_find x0_loop_find)

theorem fit_validation_witness:
  "find (\<lambda>v. [''x'' \<mapsto> Vector [Fin 1]] (Variable.name v) = None)
     (get_vars (Distribution 0 [(''x'', \<lparr>Variable.oid = 1, name = ''x'', label = ''x''\<rparr>)]
        [(''mu'', ParameterObj \<lparr>Parameter.oid = 2, name = ''mu'', label = ''mu'', lower = None, upper = None\<rparr>)]
        [] (Normal (TVector 1 ''x'') (TScalar 2 ''mu'') (TScalar 2 ''mu'')))) = None
   \<and> fit (\<lambda>f g x0. Inr (x0, ())) (\<lambda>inputs c wrt. Inr (\<lambda>args. Inr []))
       (Distribution 0 [(''x'', \<lparr>Variable.oid = 1, name = ''x'', label = ''x''\<rparr>)]
        [(''mu'', ParameterObj \<lparr>Parameter.oid = 2, name = ''mu'', label = ''mu'', lower = None, upper = None\<rparr>)]
        [] (Normal (TVector 1 ''x'') (TScalar 2 ''mu'') (TScalar 2 ''mu'')))
       [''x'' \<mapsto> Vector [Fin 1]] Map.empty init_state
     = (Inl (ValueError ''No initial value specified for Parameter mu''), init_state)
   \<and> fit (\<lambda>f g x0. Inr (x0, ())) (\<lambda>inputs c wrt. Inr (\<lambda>args. Inr []))
       (Distribution 0 [(''x'', \<lparr>Variable.oid = 1, name = ''x'', label = ''x''\<rparr>)]
        [(''mu'', ParameterObj \<lparr>Parameter.oid = 2, name = ''mu'', label = ''mu'', lower = None, upper = None\<rparr>)]
        [] (Normal (TVector 1 ''x'') (TScalar 2 ''mu'') (TScalar 2 ''mu'')))
       Map.empty [''mu'' \<mapsto> Fin 0] init_state
     = (Inl (ValueError ''Random variable x required by model not found in dataset''), init_state)"
proof -
  let ?x = "\<lparr>Variable.oid = 1, name = ''x'', label = ''x''\<rparr>"
  let ?mu = "\<lparr>Parameter.oid = 2, name = ''mu'', label = ''mu'', lower = None, upper = None\<rparr>"
  let ?d = "Distribution 0 [(''x'', ?x)] [(''mu'', ParameterObj ?mu)]
        [] (Normal (TVector 1 ''x'') (TScalar 2 ''mu'') (TScalar 2 ''mu''))"
  let ?data = "[''x'' \<mapsto> Vector [Fin 1]]"
  have v: "find (\<lambda>v. ?data (Variable.name v) = None) (get_vars ?d) = None"
    by simp
  have p: "find (\<lambda>p. (Map.empty :: string \<rightharpoonup> val) (pobj_name p) = None) (get_params ?d) = Some (ParameterObj ?mu)"
    by simp
  have w: "find (\<lambda>v. (Map.empty :: string \<rightharpoonup> tensor) (Variable.name v) = None) (get_vars ?d) = Some ?x"
    by simp
  have second: "fit (\<lambda>f g x0. Inr (x0, ())) (\<lambda>inputs c wrt. Inr (\<lambda>args. Inr [])) ?d ?data Map.empty init_state
     = (Inl (ValueError ''No initial value specified for Parameter mu''), init_state)"
    using fit_validation [where data = ?data and d = ?d and init = Map.empty and p = "ParameterObj ?mu"
        and minimize = "\<lambda>f g x0. Inr (x0, ())" and G = "\<lambda>inputs c wrt. Inr (\<lambda>args. Inr [])"
        and st = init_state] v p
    by simp
  have first: "fit (\<lambda>f g x0. Inr (x0, ())) (\<lambda>inputs c wrt. Inr (\<lambda>args. Inr [])) ?d Map.empty
       [''mu'' \<mapsto> Fin 0] init_state
     = (Inl (ValueError ''Random variable x required by model not found in dataset''), init_state)"
    using fit_validation [where data = Map.empty and d = ?d and init = "[''mu'' \<mapsto> Fin 0]"
        and v = ?x and minimize = "\<lambda>f g x0. Inr (x0, ())" and G = "\<lambda>inputs c wrt. Inr (\<lambda>args. Inr [])"
        and st = init_state] w
    by simp
  show ?thesis
    using v second first by simp
qed

text \<open>
  C7 as stated fails where a variable and a parameter are both missing: the parameter
  \<open>mu\<close> is returned by \<open>get_params\<close> and absent from \<open>init\<close>, yet the error raised is the
  missing-variable error for \<open>x\<close>, not a missing-initial-value error.
\<close>

theorem fit_missing_both_counterexample:
  "ParameterObj \<lparr>Parameter.oid = 2, name = ''mu'', label = ''mu'', lower = None, upper = None\<rparr>
     \<in> set (get_params (Distribution 0
        [(''x'', \<lparr>Variable.oid = 1, name = ''x'', label = ''x''\<rparr>)]
        [(''mu'', ParameterObj \<lparr>Parameter.oid = 2, name = ''mu'', label = ''mu'', lower = None, upper = None\<rparr>)]
        [] (Normal (TVector 1 ''x'') (TScalar 2 ''mu'') (TScalar 2 ''mu''))))
   \<and> (Map.empty :: string \<rightharpoonup> val) ''mu'' = None
   \<and> fit (\<lambda>f g x0. Inr (x0, ())) (\<lambda>inputs c wrt. Inr (\<lambda>args. Inr []))
       (Distribution 0 [(''x'', \<lparr>Variable.oid = 1, name = ''x'', label = ''x''\<rparr>)]
        [(''mu'', ParameterObj \<lparr>Parameter.oid = 2, name = ''mu'', label = ''mu'', lower = None, upper = None\<rparr>)]
        [] (Normal (TVector 1 ''x'') (TScalar 2 ''mu'') (TScalar 2 ''mu'')))
       Map.empty Map.empty init_state
     = (Inl (ValueError ''Random variable x required by model not found in dataset''), init_state)
   \<and> ValueError ''Random variable x required by model not found in dataset''
     \<noteq> ValueError ''No initial value specified for Parameter mu''"
  by (simp add: fit_def)

section \<open>Parameter bounds are never read\<close>

lemma strip_p_simps [simp]:
  "Parameter.oid (strip_p p) = Parameter.oid p"
  "Parameter.name (strip_p p) = Parameter.name p"
  "Parameter_tvar (strip_p p) = Parameter_tvar p"
  by (simp_all add: strip_p_def Parameter_tvar_def)

lemma strip_pobj_simps [simp]:
  "pobj_oid (strip_pobj q) = pobj_oid q"
  "pobj_name (strip_pobj q) = pobj_name q"
  "pobj_tvar (strip_pobj q) = pobj_tvar q"
  by (cases q; simp)+

lemma did_strip_bounds [simp]: "did (strip_bounds d) = did d"
  by (induction d rule: strip_bounds.induct) simp_all

lemma logp_strip_bounds: "logp (strip_bounds d) = logp d"
  by (induction d rule: strip_bounds.induct) simp_all

lemma strip_bounds_maps:
  "var (strip_bounds d) = var d"
  "param (strip_bounds d) = strip_od (param d)"
  "dists (strip_bounds d) = map (\<lambda>(n, c). (n, strip_bounds c)) (dists d)"
  by (induction d rule: strip_bounds.induct) simp_all

lemma get_vars_sel: "get_vars d = uniq_loop Variable.oid (od_values (var d) @ concat (map get_vars (od_values (dists d)))) []"
  by (cases d) simp

lemma get_params_sel: "get_params d = uniq_loop pobj_oid (od_values (param d) @ concat (map get_params (od_values (dists d)))) []"
  by (cases d) simp

lemma Distribution_children_induct:
  assumes "\<And>d. (\<And>c. c \<in> set (od_values (dists d)) \<Longrightarrow> P c) \<Longrightarrow> P d"
  shows "P d"
proof (induction d rule: get_vars.induct)
  case (1 i vs ps ds sc)
  show ?case
    by (rule assms) (use 1 in simp)
qed

lemma get_vars_strip_bounds: "get_vars (strip_bounds d) = get_vars d"
proof (induction d rule: Distribution_children_induct)
  case (1 d)
  have IH: "get_vars (strip_bounds (snd x)) = get_vars (snd x)" if "x \<in> set (dists d)" for x
    using that by (intro 1) simp
  have m: "map (\<lambda>x. get_vars (strip_bounds (snd x))) (dists d) = map (\<lambda>x. get_vars (snd x)) (dists d)"
    by (rule map_cong) (simp_all add: IH)
  show ?case
    unfolding get_vars_sel [of "strip_bounds d"] get_vars_sel [of d] strip_bounds_maps
    by (simp add: comp_def case_prod_unfold m)
qed

lemma uniq_loop_map:
  assumes "\<And>x. k (f x) = k x"
  shows "uniq_loop k (map f xs) (map f u) = map f (uniq_loop k xs u)"
proof (induction xs arbitrary: u)
  case Nil
  then show ?case by simp
next
  case (Cons x xs)
  have keys: "k ` f ` set u = k ` set u"
    using assms by (auto simp: image_iff)
  show ?case
    using Cons [of u] Cons [of "u @ [x]"] assms keys by (simp add: image_image)
qed

lemma get_params_strip_bounds: "get_params (strip_bounds d) = map strip_pobj (get_params d)"
proof (induction d rule: Distribution_children_induct)
  case (1 d)
  have IH: "get_params (strip_bounds (snd x)) = map strip_pobj (get_params (snd x))"
    if "x \<in> set (dists d)" for x
    using that by (intro 1) simp
  have m: "map (\<lambda>x. get_params (strip_bounds (snd x))) (dists d)
      = map (\<lambda>x. map strip_pobj (get_params (snd x))) (dists d)"
    by (rule map_cong) (simp_all add: IH)
  have ch: "concat (map get_params (od_values (map (\<lambda>(n, c). (n, strip_bounds c)) (dists d))))
      = map strip_pobj (concat (map get_params (od_values (dists d))))"
    by (simp add: comp_def case_prod_unfold map_concat m)
  have own: "od_values (strip_od (param d)) = map strip_pobj (od_values (param d))"
    by (simp add: strip_od_def comp_def case_prod_unfold)
  have "uniq_loop pobj_oid
          (map strip_pobj (od_values (param d) @ concat (map get_params (od_values (dists d))))) (map strip_pobj [])
      = map strip_pobj (uniq_loop pobj_oid (od_values (param d) @ concat (map get_params (od_values (dists d)))) [])"
    by (rule uniq_loop_map) simp
  then show ?case
    unfolding get_params_sel [of "strip_bounds d"] get_params_sel [of d] strip_bounds_maps own ch
    by simp
qed

lemma x0_loop_strip_pobj: "x0_loop (map strip_pobj ps) init acc = x0_loop ps init acc"
  by (induction ps arbitrary: acc) (simp_all split: option.splits)

lemma ret_loop_strip_pobj: "ret_loop (zip (map strip_pobj ps) xs) m = ret_loop (zip ps xs) m"
proof (induction ps arbitrary: xs m)
  case Nil
  then show ?case by simp
next
  case (Cons p ps)
  then show ?case by (cases xs) (simp_all add: fun_upd_def)
qed

lemma memoize_cong:
  assumes "did d = did d'" and "f d st = f d' st"
  shows "memoize get put f d st = memoize get put f d' st"
  unfolding memoize_def assms ..

text \<open>
  C9. The \<open>lower\<close> and \<open>upper\<close> of a Parameter and the \<open>enforce_lower\<close> and
  \<open>enforce_upper\<close> arguments of \<open>_add_param\<close> are never read: for two models that differ
  only in the bounds of their Parameters, the \<open>logp\<close> expressions are the same, the
  compiled objective and gradient (and the state they leave) are the same, and \<open>fit\<close>
  behaves the same on every data, initial values and state; and \<open>_add_param\<close> returns
  the same for any two choices of the enforce arguments.
\<close>

theorem bounds_never_read:
  assumes "strip_bounds d = strip_bounds d'"
  shows "logp d = logp d'
       \<and> logp_compiled d st = logp_compiled d' st
       \<and> grad_compiled G d st = grad_compiled G d' st
       \<and> fit minimize G d data init st = fit minimize G d' data init st
       \<and> add_param ps arg el eu = add_param ps arg el' eu'"
proof -
  have lg: "logp d = logp d'"
    using assms logp_strip_bounds [of d] logp_strip_bounds [of d'] by simp
  have id: "did d = did d'"
    using assms did_strip_bounds [of d] did_strip_bounds [of d'] by simp
  have vs: "get_vars d = get_vars d'"
    using assms get_vars_strip_bounds [of d] get_vars_strip_bounds [of d'] by simp
  have pst: "map strip_pobj (get_params d) = map strip_pobj (get_params d')"
    using assms get_params_strip_bounds [of d] get_params_strip_bounds [of d'] by simp
  have "map pobj_tvar (map strip_pobj (get_params d))
      = map pobj_tvar (map strip_pobj (get_params d'))"
    unfolding pst ..
  then have pt: "map pobj_tvar (get_params d) = map pobj_tvar (get_params d')"
    by (simp add: comp_def)
  have vp: "get_vars_pars d = get_vars_pars d'"
    by (simp add: get_vars_pars_def vs pt)
  have lb: "logp_body d s = logp_body d' s" for s
    unfolding logp_body_def vp lg id ..
  have gb: "grad_body G d s = grad_body G d' s" for s
    unfolding grad_body_def vp lg id ..
  have lc: "logp_compiled d s = logp_compiled d' s" for s
    unfolding logp_compiled_def by (rule memoize_cong [OF id lb])
  have gc: "grad_compiled G d s = grad_compiled G d' s" for s
    unfolding grad_compiled_def by (rule memoize_cong [OF id gb])
  have x0: "x0_loop (get_params d) init [] = x0_loop (get_params d') init []"
    using x0_loop_strip_pobj [of "get_params d" init "[]"]
      x0_loop_strip_pobj [of "get_params d'" init "[]"] pst by simp
  have ret: "ret_loop (zip (get_params d) xs) m = ret_loop (zip (get_params d') xs) m" for xs m
    using ret_loop_strip_pobj [of "get_params d" xs m] ret_loop_strip_pobj [of "get_params d'" xs m] pst
    by simp
  have ft: "fit minimize G d data init st = fit minimize G d' data init st"
    unfolding fit_def Let_def vs x0 lc gc id ret ..
  have ap: "add_param ps arg el eu = add_param ps arg el' eu'"
    by (cases "(ps, arg, el, eu)" rule: add_param.cases) simp_all
  show ?thesis
    using lg lc gc ft ap by simp
qed

theorem bounds_never_read_witness:
  "strip_bounds
     (Distribution 0 [(''x'', \<lparr>Variable.oid = 1, name = ''x'', label = ''x''\<rparr>)]
        [(''s'', ParameterObj \<lparr>Parameter.oid = 2, name = ''s'', label = ''s'', lower = Some 0, upper = Some 9\<rparr>)]
        [] (Normal (TVector 1 ''x'') (TScalar 2 ''s'') (TScalar 2 ''s'')))
   = strip_bounds
     (Distribution 0 [(''x'', \<lparr>Variable.oid = 1, name = ''x'', label = ''x''\<rparr>)]
        [(''s'', ParameterObj \<lparr>Parameter.oid = 2, name = ''s'', label = ''s'', lower = None, upper = None\<rparr>)]
        [] (Normal (TVector 1 ''x'') (TScalar 2 ''s'') (TScalar 2 ''s'')))
   \<and> fit (\<lambda>f g x0. Inr (x0, ())) (\<lambda>inputs c wrt. Inr (\<lambda>args. Inr []))
       (Distribution 0 [(''x'', \<lparr>Variable.oid = 1, name = ''x'', label = ''x''\<rparr>)]
        [(''s'', ParameterObj \<lparr>Parameter.oid = 2, name = ''s'', label = ''s'', lower = Some 0, upper = Some 9\<rparr>)]
        [] (Normal (TVector 1 ''x'') (TScalar 2 ''s'') (TScalar 2 ''s'')))
       [''x'' \<mapsto> Vector [Fin 1]] [''s'' \<mapsto> Fin (- 1)] init_state
     = fit (\<lambda>f g x0. Inr (x0, ())) (\<lambda>inputs c wrt. Inr (\<lambda>args. Inr []))
       (Distribution 0 [(''x'', \<lparr>Variable.oid = 1, name = ''x'', label = ''x''\<rparr>)]
        [(''s'', ParameterObj \<lparr>Parameter.oid = 2, name = ''s'', label = ''s'', lower = None, upper = None\<rparr>)]
        [] (Normal (TVector 1 ''x'') (TScalar 2 ''s'') (TScalar 2 ''s'')))
       [''x'' \<mapsto> Vector [Fin 1]] [''s'' \<mapsto> Fin (- 1)] init_state"
proof -
  let ?x = "\<lparr>Variable.oid = 1, name = ''x'', label = ''x''\<rparr>"
  let ?d = "Distribution 0 [(''x'', ?x)]
        [(''s'', ParameterObj \<lparr>Parameter.oid = 2, name = ''s'', label = ''s'', lower = Some 0, upper = Some 9\<rparr>)]
        [] (Normal (TVector 1 ''x'') (TScalar 2 ''s'') (TScalar 2 ''s''))"
  let ?d' = "Distribution 0 [(''x'', ?x)]
        [(''s'', ParameterObj \<lparr>Parameter.oid = 2, name = ''s'', label = ''s'', lower = None, upper = None\<rparr>)]
        [] (Normal (TVector 1 ''x'') (TScalar 2 ''s'') (TScalar 2 ''s''))"
  have h: "strip_bounds ?d = strip_bounds ?d'"
    by (simp add: strip_od_def strip_p_def)
  from bounds_never_read [OF h, where minimize = "\<lambda>f g x0. Inr (x0, ())"
      and G = "\<lambda>inputs c wrt. Inr (\<lambda>args. Inr [])" and data = "[''x'' \<mapsto> Vector [Fin 1]]"
      and init = "[''s'' \<mapsto> Fin (- 1)]" and st = init_state]
  show ?thesis using h by blast
qed

section \<open>The compiled objective\<close>

lemma logp_compiled_cases:
  obtains (cached) c where "logp_cache st (did d) = Some c" "logp_compiled d st = (Inr c, st)"
  | (failed) e where "logp_cache st (did d) = None"
      "logp_compiled d st = (Inl e, emit (Logged ''Compiling logp...'') st)"
  | (compiled) c where "logp_cache st (did d) = None"
      "logp_compiled d st
         = (Inr c, put_logp (did d) c (emit (Compiled (did d) ''logp_compiled'')
                                        (emit (Logged ''Compiling logp...'') st)))"
proof (cases "logp_cache st (did d)")
  case (Some c)
  then have "logp_compiled d st = (Inr c, st)"
    by (simp add: logp_compiled_def memoize_def)
  then show ?thesis
    using Some cached by blast
next
  case None
  obtain vars pars where vp: "get_vars_pars d = (vars, pars)"
    by (cases "get_vars_pars d")
  show ?thesis
  proof (cases "theano_function (vars @ pars) (NegSum (logp d))")
    case (Inl e)
    then have "logp_compiled d st = (Inl e, emit (Logged ''Compiling logp...'') st)"
      using None vp by (simp add: logp_compiled_def memoize_def logp_body_def)
    then show ?thesis
      using None failed by blast
  next
    case (Inr c)
    then have "logp_compiled d st
         = (Inr c, put_logp (did d) c (emit (Compiled (did d) ''logp_compiled'')
                                        (emit (Logged ''Compiling logp...'') st)))"
      using None vp by (simp add: logp_compiled_def memoize_def logp_body_def)
    then show ?thesis
      using None compiled by blast
  qed
qed

lemma grad_compiled_cases:
  obtains (cached) c where "grad_cache st (did d) = Some c" "grad_compiled G d st = (Inr c, st)"
  | (failed) e where "grad_cache st (did d) = None"
      "grad_compiled G d st = (Inl e, emit (Logged ''Compiling grad_logp...'') st)"
  | (compiled) c where "grad_cache st (did d) = None"
      "grad_compiled G d st
         = (Inr c, put_grad (did d) c (emit (Compiled (did d) ''grad_compiled'')
                                        (emit (Logged ''Compiling grad_logp...'') st)))"
proof (cases "grad_cache st (did d)")
  case (Some c)
  then have "grad_compiled G d st = (Inr c, st)"
    by (simp add: grad_compiled_def memoize_def)
  then show ?thesis
    using Some cached by blast
next
  case None
  obtain vars pars where vp: "get_vars_pars d = (vars, pars)"
    by (cases "get_vars_pars d")
  show ?thesis
  proof (cases "G (vars @ pars) (NegSum (logp d)) pars")
    case (Inl e)
    then have "grad_compiled G d st = (Inl e, emit (Logged ''Compiling grad_logp...'') st)"
      using None vp by (simp add: grad_compiled_def memoize_def grad_body_def)
    then show ?thesis
      using None failed by blast
  next
    case (Inr c)
    then have "grad_compiled G d st
         = (Inr c, put_grad (did d) c (emit (Compiled (did d) ''grad_compiled'')
                                        (emit (Logged ''Compiling grad_logp...'') st)))"
      using None vp by (simp add: grad_compiled_def memoize_def grad_body_def)
    then show ?thesis
      using None compiled by blast
  qed
qed

lemma theano_function_Inr:
  assumes "distinct inputs" and "set inputs = set (leaves e)"
  shows "theano_function inputs (NegSum e) = Inr (call inputs e)"
proof -
  have "count_list inputs t \<le> 1" for t
    using assms(1) by (induction inputs) auto
  then have "\<not> 1 < count_list inputs t" for t
    by (simp add: not_less)
  then have d: "find (\<lambda>t. 1 < count_list inputs t) inputs = None"
    by (simp add: find_None_iff)
  have u: "find (\<lambda>t. t \<notin> set (leaves e)) inputs = None"
    using assms(2) by (simp add: find_None_iff)
  have m: "find (\<lambda>t. t \<notin> set inputs) (leaves e) = None"
    using assms(2) by (simp add: find_None_iff)
  show ?thesis
    by (simp only: theano_function.simps d u m option.case)
qed

lemma logp_compiled_Inr:
  assumes "logp_cache st (did d) = None" and "get_vars_pars d = (vars, pars)"
    and "theano_function (vars @ pars) (NegSum (logp d)) = Inr c"
  shows "logp_compiled d st
         = (Inr c, put_logp (did d) c (emit (Compiled (did d) ''logp_compiled'')
                                        (emit (Logged ''Compiling logp...'') st)))"
  using assms by (simp add: logp_compiled_def memoize_def logp_body_def)

lemma logp_compiled_Inl:
  assumes "logp_cache st (did d) = None" and "get_vars_pars d = (vars, pars)"
    and "theano_function (vars @ pars) (NegSum (logp d)) = Inl e"
  shows "logp_compiled d st = (Inl e, emit (Logged ''Compiling logp...'') st)"
  using assms by (simp add: logp_compiled_def memoize_def logp_body_def)

lemma Uniform_unused_input:
  assumes "Uniform_init a x (Some (PyParameter pl)) (Some (PyParameter pu)) = Inr d"
  shows "did d = a"
    and "get_vars d = [x]"
    and "set (get_params d) \<subseteq> {ParameterObj pl, ParameterObj pu}"
    and "theano_function (fst (get_vars_pars d) @ snd (get_vars_pars d)) (NegSum (logp d))
           = Inl (UnusedInputError (Variable_tvar x))"
proof -
  have d: "d = Distribution a [(Variable.name x, x)]
            (od_set [(Parameter.name pl, ParameterObj pl)] (Parameter.name pu) (ParameterObj pu)) []
            (Uniform (Variable_tvar x) (Parameter_tvar pl) (Parameter_tvar pu))"
    using assms unfolding Uniform_init_Parameters by simp
  show "did d = a"
    unfolding d by simp
  show v: "get_vars d = [x]"
    unfolding d by simp
  show p: "set (get_params d) \<subseteq> {ParameterObj pl, ParameterObj pu}"
    unfolding d by auto
  have lg: "leaves (logp d) = [Parameter_tvar pu, Parameter_tvar pl]"
    unfolding d by simp
  let ?ps = "map pobj_tvar (get_params d)"
  have ps: "distinct ?ps"
    unfolding d by (auto simp: Parameter_tvar_def)
  have nx: "Variable_tvar x \<notin> set ?ps"
    using p by (auto simp: Variable_tvar_def Parameter_tvar_def)
  have dist: "distinct (Variable_tvar x # ?ps)"
    using ps nx by simp
  have cl: "count_list inputs t \<le> 1" if "distinct inputs" for inputs :: "tvar list" and t
    using that by (induction inputs) auto
  have "\<not> 1 < count_list (Variable_tvar x # ?ps) t" for t
    using cl [OF dist, of t] by (simp only: not_less)
  then have dup: "find (\<lambda>t. 1 < count_list (Variable_tvar x # ?ps) t) (Variable_tvar x # ?ps) = None"
    unfolding find_None_iff by blast
  have un: "find (\<lambda>t. t \<notin> set (leaves (logp d))) (Variable_tvar x # ?ps) = Some (Variable_tvar x)"
    unfolding lg by (simp add: Variable_tvar_def Parameter_tvar_def)
  show "theano_function (fst (get_vars_pars d) @ snd (get_vars_pars d)) (NegSum (logp d))
           = Inl (UnusedInputError (Variable_tvar x))"
    unfolding get_vars_pars_def fst_conv snd_conv v list.map append_Cons append_Nil
      theano_function.simps dup un option.case ..
qed

text \<open>
  C5 at a Uniform distribution. \<open>Uniform.__init__\<close> registers \<open>x\<close>, so \<open>x\<close> is the first
  input handed to the engine, and \<open>Uniform.logp\<close> never uses it: for every Uniform
  distribution its constructor returns, \<open>logp_compiled()\<close> called for the first time
  produces no callable but raises the engine's unused-input error for \<open>x\<close>, and nothing
  is cached; and a \<open>fit\<close> whose data and initial values pass validation raises the same
  error, the minimizer never invoked.
\<close>

theorem Uniform_logp_compiled_raises:
  assumes "Uniform_init a x (Some (PyParameter pl)) (Some (PyParameter pu)) = Inr d"
    and "logp_cache st a = None"
  shows "logp_compiled d st
           = (Inl (UnusedInputError (Variable_tvar x)), emit (Logged ''Compiling logp...'') st)
       \<and> (data (Variable.name x) \<noteq> None \<and> init (Parameter.name pl) \<noteq> None
            \<and> init (Parameter.name pu) \<noteq> None \<longrightarrow>
            fit minimize G d data init st
              = (Inl (UnusedInputError (Variable_tvar x)), emit (Logged ''Compiling logp...'') st))"
proof -
  note u = Uniform_unused_input [OF assms(1)]
  have lc: "logp_compiled d st
           = (Inl (UnusedInputError (Variable_tvar x)), emit (Logged ''Compiling logp...'') st)"
    by (rule logp_compiled_Inl [OF _ _ u(4)]) (simp_all add: u(1) assms(2))
  have ft: "fit minimize G d data init st
              = (Inl (UnusedInputError (Variable_tvar x)), emit (Logged ''Compiling logp...'') st)"
    if "data (Variable.name x) \<noteq> None" "init (Parameter.name pl) \<noteq> None"
      "init (Parameter.name pu) \<noteq> None"
  proof -
    have v: "find (\<lambda>v. data (Variable.name v) = None) (get_vars d) = None"
      using that(1) by (simp add: u(2))
    have "init (pobj_name p) \<noteq> None" if "p \<in> set (get_params d)" for p
      using that u(3) \<open>init (Parameter.name pl) \<noteq> None\<close> \<open>init (Parameter.name pu) \<noteq> None\<close>
      by auto
    then have p: "find (\<lambda>p. init (pobj_name p) = None) (get_params d) = None"
      unfolding find_None_iff by blast
    show ?thesis
      unfolding fit_def Let_def data_args_loop_find x0_loop_find v p lc by simp
  qed
  show ?thesis
    using lc ft by blast
qed

theorem Uniform_logp_compiled_raises_witness:
  "logp_compiled
     (Distribution 0 [(''x'', \<lparr>Variable.oid = 1, name = ''x'', label = ''x''\<rparr>)]
        [(''lo'', ParameterObj \<lparr>Parameter.oid = 2, name = ''lo'', label = ''lo'', lower = None, upper = None\<rparr>),
         (''up'', ParameterObj \<lparr>Parameter.oid = 3, name = ''up'', label = ''up'', lower = None, upper = None\<rparr>)]
        [] (Uniform (TVector 1 ''x'') (TScalar 2 ''lo'') (TScalar 3 ''up'')))
     init_state
   = (Inl (UnusedInputError (TVector 1 ''x'')), emit (Logged ''Compiling logp...'') init_state)
   \<and> fit (\<lambda>f g x0. Inr (x0, ())) (\<lambda>inputs c wrt. Inr (\<lambda>args. Inr []))
     (Distribution 0 [(''x'', \<lparr>Variable.oid = 1, name = ''x'', label = ''x''\<rparr>)]
        [(''lo'', ParameterObj \<lparr>Parameter.oid = 2, name = ''lo'', label = ''lo'', lower = None, upper = None\<rparr>),
         (''up'', ParameterObj \<lparr>Parameter.oid = 3, name = ''up'', label = ''up'', lower = None, upper = None\<rparr>)]
        [] (Uniform (TVector 1 ''x'') (TScalar 2 ''lo'') (TScalar 3 ''up'')))
     [''x'' \<mapsto> Vector [Fin 1, Fin 2]] [''lo'' \<mapsto> Fin 0, ''up'' \<mapsto> Fin 3] init_state
   = (Inl (UnusedInputError (TVector 1 ''x'')), emit (Logged ''Compiling logp...'') init_state)"
proof -
  let ?M = "\<lambda>(f :: val list \<Rightarrow> error + val) (g :: val list \<Rightarrow> error + val list) (x0 :: val list).
              (Inr (x0, ()) :: error + val list \<times> unit)"
  let ?G = "\<lambda>(inputs :: tvar list) (c :: cost) (wrt :: tvar list).
              (Inr (\<lambda>args. Inr []) :: error + grad_callable)"
  let ?x = "\<lparr>Variable.oid = 1, name = ''x'', label = ''x''\<rparr>"
  let ?lo = "\<lparr>Parameter.oid = 2, name = ''lo'', label = ''lo'', lower = None, upper = None\<rparr>"
  let ?up = "\<lparr>Parameter.oid = 3, name = ''up'', label = ''up'', lower = None, upper = None\<rparr>"
  let ?d = "Distribution 0 [(''x'', ?x)] [(''lo'', ParameterObj ?lo), (''up'', ParameterObj ?up)] []
        (Uniform (TVector 1 ''x'') (TScalar 2 ''lo'') (TScalar 3 ''up''))"
  let ?data = "[''x'' \<mapsto> Vector [Fin 1, Fin 2]]"
  let ?init = "[''lo'' \<mapsto> Fin 0, ''up'' \<mapsto> Fin 3]"
  have c: "Uniform_init 0 ?x (Some (PyParameter ?lo)) (Some (PyParameter ?up)) = Inr ?d"
    by (simp add: Uniform_init_Parameters Variable_tvar_def Parameter_tvar_def)
  have e: "logp_cache init_state 0 = None"
    by (simp add: init_state_def)
  have h: "?data (Variable.name ?x) \<noteq> None" "?init (Parameter.name ?lo) \<noteq> None"
    "?init (Parameter.name ?up) \<noteq> None"
    by simp_all
  have v: "Variable_tvar ?x = TVector 1 ''x''"
    by (simp add: Variable_tvar_def)
  show ?thesis
    using Uniform_logp_compiled_raises [OF c e, where data = ?data and init = ?init
        and minimize = ?M and G = ?G] h
    unfolding v by blast
qed

text \<open>
  At a Normal distribution, whose \<open>logp\<close> uses every registered leaf, the engine compiles:
  the callable takes the data of \<open>x\<close>, then \<open>mu\<close> and \<open>sigma\<close>, and returns the negative
  of the sum over the rows; two rows at the mean of the standard Normal give
  \<open>log(2 pi)\<close>. An argument of the wrong rank is refused.
\<close>

lemma Normal_logp_compiled_value:
  fixes d defines "d \<equiv> Distribution 0 [(''x'', \<lparr>Variable.oid = 1, name = ''x'', label = ''x''\<rparr>)]
        [(''mu'', ParameterObj \<lparr>Parameter.oid = 2, name = ''mu'', label = ''mu'', lower = None, upper = None\<rparr>),
         (''sigma'', ParameterObj \<lparr>Parameter.oid = 3, name = ''sigma'', label = ''sigma'', lower = None, upper = None\<rparr>)]
        [] (Normal (TVector 1 ''x'') (TScalar 2 ''mu'') (TScalar 3 ''sigma''))"
  shows "fst (logp_compiled d init_state)
           = Inr (call [TVector 1 ''x'', TScalar 2 ''mu'', TScalar 3 ''sigma''] (logp d))"
    and "call [TVector 1 ''x'', TScalar 2 ''mu'', TScalar 3 ''sigma''] (logp d)
           [Vector [Fin 0, Fin 0], Scalar (Fin 0), Scalar (Fin 1)] = Inr (Fin (ln (2 * pi)))"
    and "call [TVector 1 ''x'', TScalar 2 ''mu'', TScalar 3 ''sigma''] (logp d)
           [Scalar (Fin 0), Scalar (Fin 0), Scalar (Fin 1)]
           = Inl (TypeError ''Wrong number of dimensions'')"
proof -
  let ?inputs = "[TVector 1 ''x'', TScalar 2 ''mu'', TScalar 3 ''sigma'']"
  let ?args = "[Vector [Fin 0, Fin 0], Scalar (Fin 0), Scalar (Fin 1)]"
  define env where "env = map_of (zip ?inputs ?args)"
  have env: "env (TVector 1 ''x'') = Some (Vector [Fin 0, Fin 0])"
    "env (TScalar 2 ''mu'') = Some (Scalar (Fin 0))"
    "env (TScalar 3 ''sigma'') = Some (Scalar (Fin 1))"
    by (simp_all add: env_def)
  note env = env env(1) [unfolded One_nat_def]
  have vp: "get_vars_pars d = ([TVector 1 ''x''], [TScalar 2 ''mu'', TScalar 3 ''sigma''])"
    by (simp add: d_def get_vars_pars_def Variable_tvar_def Parameter_tvar_def)
  have lv: "set ([TVector 1 ''x''] @ [TScalar 2 ''mu'', TScalar 3 ''sigma'']) = set (leaves (logp d))"
    by (auto simp: d_def bound_def alltrue_def)
  have c: "theano_function ([TVector 1 ''x''] @ [TScalar 2 ''mu'', TScalar 3 ''sigma''])
             (NegSum (logp d))
      = Inr (call ([TVector 1 ''x''] @ [TScalar 2 ''mu'', TScalar 3 ''sigma'']) (logp d))"
    by (rule theano_function_Inr [OF _ lv]) simp
  show "fst (logp_compiled d init_state) = Inr (call ?inputs (logp d))"
    using logp_compiled_Inr [OF _ vp c, of init_state] by (simp add: init_state_def)
  have sh: "shape_of env (logp d) = Some (Shape1 2)"
    by (simp add: d_def bound_def alltrue_def env)
  have rw: "eval (row_env env i) (logp d) = Some (Fin (- 0.5 * ln (2 * pi)))" if "i < 2" for i
  proof -
    have x: "row_env env i (TVector 1 ''x'') = Some (Fin 0)"
      using that by (cases i) (simp_all add: row_env_def env less_Suc_eq)
    have m: "row_env env i (TScalar 2 ''mu'') = Some (Fin 0)"
      by (simp add: row_env_def env)
    have s: "row_env env i (TScalar 3 ''sigma'') = Some (Fin 1)"
      by (simp add: row_env_def env)
    have "ln (1 / sqrt (2 * pi)) = - (ln (2 * pi) / 2)"
      by (simp add: ln_divide_pos ln_sqrt)
    then show ?thesis
      unfolding d_def Normal_logp_masked [OF x m s]
      using Normal_density_value [OF _ Normal_in_range_standard] by simp
  qed
  have "map (\<lambda>i. eval (row_env env i) (logp d)) [0..<2]
      = map (\<lambda>i. Some (Fin (- 0.5 * ln (2 * pi)))) [0..<2]"
    by (rule map_cong) (simp_all add: rw)
  then have "tensor_of env (logp d)
      = Some (Vector [Fin (- 0.5 * ln (2 * pi)), Fin (- 0.5 * ln (2 * pi))])"
    unfolding tensor_of_def sh by (simp add: numeral_2_eq_2)
  then show "call ?inputs (logp d) ?args = Inr (Fin (ln (2 * pi)))"
    unfolding call_def env_def [symmetric] by simp
  show "call ?inputs (logp d) [Scalar (Fin 0), Scalar (Fin 0), Scalar (Fin 1)]
           = Inl (TypeError ''Wrong number of dimensions'')"
    unfolding call_def by simp
qed

section \<open>Compilation happens at most once\<close>

lemma cache_inv_init: "cache_inv init_state"
  by (simp add: cache_inv_def init_state_def expected_compiles_def)

lemma count_list_snoc: "count_list (xs @ [x]) y = count_list xs y + (if x = y then 1 else 0)"
  by (induction xs) simp_all

lemma cache_inv_emit:
  assumes "cache_inv st" and "\<And>k m. ev \<noteq> Compiled k m"
  shows "cache_inv (emit ev st)"
  using assms by (simp add: cache_inv_def emit_def count_list_snoc expected_compiles_def)

lemma cache_inv_put_logp:
  assumes "cache_inv st" and "logp_cache st k = None" and "\<And>k m. ev \<noteq> Compiled k m"
  shows "cache_inv (put_logp k c (emit (Compiled k ''logp_compiled'') (emit ev st)))"
  using assms
  by (auto simp: cache_inv_def put_logp_def emit_def count_list_snoc expected_compiles_def)

lemma cache_inv_put_grad:
  assumes "cache_inv st" and "grad_cache st k = None" and "\<And>k m. ev \<noteq> Compiled k m"
  shows "cache_inv (put_grad k c (emit (Compiled k ''grad_compiled'') (emit ev st)))"
  using assms
  by (auto simp: cache_inv_def put_grad_def emit_def count_list_snoc expected_compiles_def)

lemma cache_inv_logp_compiled:
  assumes "cache_inv st"
  shows "cache_inv (snd (logp_compiled d st))"
proof (cases rule: logp_compiled_cases [where st = st and d = d])
  case (cached c)
  then show ?thesis using assms by simp
next
  case (failed e)
  then show ?thesis using assms by (simp add: cache_inv_emit)
next
  case (compiled c)
  then show ?thesis using assms by (simp add: cache_inv_put_logp)
qed

lemma cache_inv_grad_compiled:
  assumes "cache_inv st"
  shows "cache_inv (snd (grad_compiled G d st))"
proof (cases rule: grad_compiled_cases [where st = st and d = d and G = G])
  case (cached c)
  then show ?thesis using assms by simp
next
  case (failed e)
  then show ?thesis using assms by (simp add: cache_inv_emit)
next
  case (compiled c)
  then show ?thesis using assms by (simp add: cache_inv_put_grad)
qed

lemma fit_state:
  "snd (fit minimize G d data init st) = st
   \<or> snd (fit minimize G d data init st) = snd (logp_compiled d st)
   \<or> snd (fit minimize G d data init st) = snd (grad_compiled G d (snd (logp_compiled d st)))
   \<or> snd (fit minimize G d data init st)
       = emit (Minimized (did d))
           (emit (Logged ''Minimizing negative log-likelihood of model...'')
              (snd (grad_compiled G d (snd (logp_compiled d st)))))"
  by (simp add: fit_def Let_def split: sum.splits prod.splits)

lemma fit_Inr_state:
  assumes "fit minimize G d data init st = (Inr r, st1)"
  shows "st1 = emit (Minimized (did d))
           (emit (Logged ''Minimizing negative log-likelihood of model...'')
              (snd (grad_compiled G d (snd (logp_compiled d st)))))"
    and "\<exists>c. fst (logp_compiled d st) = Inr c"
    and "\<exists>g. fst (grad_compiled G d (snd (logp_compiled d st))) = Inr g"
  using assms by (auto simp: fit_def Let_def split: sum.splits prod.splits)

lemma cache_inv_fit:
  assumes "cache_inv st"
  shows "cache_inv (snd (fit minimize G d data init st))"
proof -
  have l: "cache_inv (snd (logp_compiled d st))"
    by (intro cache_inv_logp_compiled assms)
  have g: "cache_inv (snd (grad_compiled G d (snd (logp_compiled d st))))"
    by (intro cache_inv_grad_compiled l)
  have "cache_inv (emit (Minimized (did d))
           (emit (Logged ''Minimizing negative log-likelihood of model...'')
              (snd (grad_compiled G d (snd (logp_compiled d st))))))"
    by (intro cache_inv_emit g) simp_all
  then show ?thesis
    using fit_state [of minimize G d data init st] assms l g by auto
qed

lemma cache_inv_step: "cache_inv st \<Longrightarrow> cache_inv (step minimize G st c)"
  by (cases c) (simp_all add: cache_inv_logp_compiled cache_inv_grad_compiled cache_inv_fit)

lemma cache_inv_run: "cache_inv st \<Longrightarrow> cache_inv (run minimize G calls st)"
  unfolding run_def by (induction calls arbitrary: st) (simp_all add: cache_inv_step)

lemma expected_compiles_le: "expected_compiles st k m \<le> 1"
  by (simp add: expected_compiles_def split: option.splits)

lemma emit_caches [simp]:
  "logp_cache (emit ev st) = logp_cache st" "grad_cache (emit ev st) = grad_cache st"
  by (simp_all add: emit_def)

lemma logp_compiled_caches:
  "fst (logp_compiled d st) = Inr c \<Longrightarrow> logp_cache (snd (logp_compiled d st)) (did d) \<noteq> None"
  "logp_cache st k \<noteq> None \<Longrightarrow> logp_cache (snd (logp_compiled d st)) k \<noteq> None"
  "grad_cache (snd (logp_compiled d st)) = grad_cache st"
  by (cases rule: logp_compiled_cases [where st = st and d = d]; simp add: put_logp_def)+

lemma grad_compiled_caches:
  "fst (grad_compiled G d st) = Inr c \<Longrightarrow> grad_cache (snd (grad_compiled G d st)) (did d) \<noteq> None"
  "grad_cache st k \<noteq> None \<Longrightarrow> grad_cache (snd (grad_compiled G d st)) k \<noteq> None"
  "logp_cache (snd (grad_compiled G d st)) = logp_cache st"
  by (cases rule: grad_compiled_cases [where st = st and d = d and G = G]; simp add: put_grad_def)+

lemma logp_compiled_again:
  assumes "fst (logp_compiled d st) = Inr c"
  shows "logp_compiled d (snd (logp_compiled d st)) = logp_compiled d st"
proof (cases rule: logp_compiled_cases [where st = st and d = d])
  case (cached c)
  then show ?thesis by simp
next
  case (failed e)
  then show ?thesis using assms by simp
next
  case (compiled c)
  then show ?thesis
    by (simp add: logp_compiled_def memoize_def put_logp_def)
qed

lemma grad_compiled_again:
  assumes "fst (grad_compiled G d st) = Inr c"
  shows "grad_compiled G d (snd (grad_compiled G d st)) = grad_compiled G d st"
proof (cases rule: grad_compiled_cases [where st = st and d = d and G = G])
  case (cached c)
  then show ?thesis by simp
next
  case (failed e)
  then show ?thesis using assms by simp
next
  case (compiled c)
  then show ?thesis
    by (simp add: grad_compiled_def memoize_def put_grad_def)
qed

lemma fit_keeps_caches:
  "logp_cache st k \<noteq> None \<Longrightarrow> logp_cache (snd (fit minimize G d data init st)) k \<noteq> None"
  "grad_cache st k \<noteq> None \<Longrightarrow> grad_cache (snd (fit minimize G d data init st)) k \<noteq> None"
proof -
  let ?l = "snd (logp_compiled d st)"
  let ?g = "snd (grad_compiled G d ?l)"
  have l: "logp_cache ?l k \<noteq> None" "logp_cache ?g k \<noteq> None" if "logp_cache st k \<noteq> None"
    using logp_compiled_caches(2) [OF that, of d]
    by (simp_all add: grad_compiled_caches(3) del: not_None_eq)
  have g: "grad_cache ?l k \<noteq> None" "grad_cache ?g k \<noteq> None" if "grad_cache st k \<noteq> None"
  proof -
    show "grad_cache ?l k \<noteq> None"
      using that by (simp add: logp_compiled_caches(3) del: not_None_eq)
    then show "grad_cache ?g k \<noteq> None"
      by (rule grad_compiled_caches(2))
  qed
  show "logp_cache st k \<noteq> None \<Longrightarrow> logp_cache (snd (fit minimize G d data init st)) k \<noteq> None"
    using fit_state [of minimize G d data init st] l by (auto simp del: not_None_eq)
  show "grad_cache st k \<noteq> None \<Longrightarrow> grad_cache (snd (fit minimize G d data init st)) k \<noteq> None"
    using fit_state [of minimize G d data init st] g by (auto simp del: not_None_eq)
qed

lemma step_keeps_logp_cache:
  "logp_cache st k \<noteq> None \<Longrightarrow> logp_cache (step minimize G st c) k \<noteq> None"
  by (cases c)
     (simp_all add: fit_keeps_caches logp_compiled_caches grad_compiled_caches del: not_None_eq)

lemma step_keeps_grad_cache:
  "grad_cache st k \<noteq> None \<Longrightarrow> grad_cache (step minimize G st c) k \<noteq> None"
  by (cases c)
     (simp_all add: fit_keeps_caches logp_compiled_caches grad_compiled_caches del: not_None_eq)

lemma run_keeps_logp_cache:
  "logp_cache st k \<noteq> None \<Longrightarrow> logp_cache (run minimize G calls st) k \<noteq> None"
  unfolding run_def
proof (induction calls arbitrary: st)
  case Nil
  then show ?case by (simp del: not_None_eq)
next
  case (Cons c calls)
  show ?case
    using Cons.IH [OF step_keeps_logp_cache [OF Cons.prems]] by (simp del: not_None_eq)
qed

lemma run_keeps_grad_cache:
  "grad_cache st k \<noteq> None \<Longrightarrow> grad_cache (run minimize G calls st) k \<noteq> None"
  unfolding run_def
proof (induction calls arbitrary: st)
  case Nil
  then show ?case by (simp del: not_None_eq)
next
  case (Cons c calls)
  show ?case
    using Cons.IH [OF step_keeps_grad_cache [OF Cons.prems]] by (simp del: not_None_eq)
qed

text \<open>
  C8, as the model has it. In every state a process can reach from its start, whatever
  calls of \<open>logp_compiled\<close>, \<open>grad_compiled\<close> and \<open>fit\<close> it made on whatever instances,
  the compiler has completed at most once for each instance and method. Once a call of
  \<open>logp_compiled\<close> (of \<open>grad_compiled\<close>) on an instance has returned a callable, a
  second call on the same instance returns the cached callable and leaves the state as
  it is. Once a \<open>fit\<close> on an instance has succeeded, the objective and the gradient of
  that instance have been compiled exactly once each, and this stays so after any further
  calls, a second \<open>fit\<close> among them. The cache is keyed by the identity of the instance.
\<close>

theorem compile_at_most_once:
  "count_list (trace (run minimize G calls init_state)) (Compiled k m) \<le> 1
   \<and> ((\<exists>c. fst (logp_compiled d st) = Inr c) \<longrightarrow>
        logp_compiled d (snd (logp_compiled d st)) = logp_compiled d st)
   \<and> ((\<exists>g. fst (grad_compiled G d st) = Inr g) \<longrightarrow>
        grad_compiled G d (snd (grad_compiled G d st)) = grad_compiled G d st)
   \<and> (fit minimize G d data init (run minimize G calls init_state) = (Inr r, st1) \<longrightarrow>
        count_list (trace (run minimize G calls' st1)) (Compiled (did d) ''logp_compiled'') = 1
        \<and> count_list (trace (run minimize G calls' st1)) (Compiled (did d) ''grad_compiled'') = 1)"
proof -
  let ?st0 = "run minimize G calls init_state"
  have inv0: "cache_inv ?st0"
    by (intro cache_inv_run cache_inv_init)
  have le: "count_list (trace ?st0) (Compiled k m) \<le> 1"
    using inv0 expected_compiles_le [of ?st0 k m] by (simp add: cache_inv_def)
  have twice: "count_list (trace (run minimize G calls' st1)) (Compiled (did d) ''logp_compiled'') = 1
        \<and> count_list (trace (run minimize G calls' st1)) (Compiled (did d) ''grad_compiled'') = 1"
    if ok: "fit minimize G d data init ?st0 = (Inr r, st1)"
  proof -
    let ?st2 = "run minimize G calls' st1"
    let ?l = "snd (logp_compiled d ?st0)"
    have st1: "st1 = emit (Minimized (did d))
           (emit (Logged ''Minimizing negative log-likelihood of model...'')
              (snd (grad_compiled G d ?l)))"
      by (rule fit_Inr_state(1) [OF ok])
    obtain c where c: "fst (logp_compiled d ?st0) = Inr c"
      using fit_Inr_state(2) [OF ok] ..
    obtain g where g: "fst (grad_compiled G d ?l) = Inr g"
      using fit_Inr_state(3) [OF ok] ..
    have "st1 = snd (fit minimize G d data init ?st0)"
      using ok by simp
    then have inv1: "cache_inv st1"
      using cache_inv_fit [OF inv0] by simp
    have inv2: "cache_inv ?st2"
      by (rule cache_inv_run [OF inv1])
    have "logp_cache ?l (did d) \<noteq> None"
      by (rule logp_compiled_caches(1) [OF c])
    then have l1: "logp_cache st1 (did d) \<noteq> None"
      unfolding st1 by (simp add: grad_compiled_caches(3) del: not_None_eq)
    have "grad_cache (snd (grad_compiled G d ?l)) (did d) \<noteq> None"
      by (rule grad_compiled_caches(1) [OF g])
    then have g1: "grad_cache st1 (did d) \<noteq> None"
      unfolding st1 by (simp del: not_None_eq)
    have l2: "logp_cache ?st2 (did d) \<noteq> None"
      by (rule run_keeps_logp_cache [OF l1])
    have g2: "grad_cache ?st2 (did d) \<noteq> None"
      by (rule run_keeps_grad_cache [OF g1])
    show ?thesis
      using inv2 l2 g2 by (auto simp: cache_inv_def expected_compiles_def)
  qed
  show ?thesis
    using le twice logp_compiled_again grad_compiled_again by blast
qed

theorem compile_at_most_once_witness:
  "count_list
     (trace (run (\<lambda>f g x0. Inr (x0, ())) (\<lambda>inputs c wrt. Inr (\<lambda>args. Inr []))
        [Call_fit (Distribution 0 [(''x'', \<lparr>Variable.oid = 1, name = ''x'', label = ''x''\<rparr>)]
            [(''s'', ParameterObj \<lparr>Parameter.oid = 2, name = ''s'', label = ''s'', lower = None, upper = None\<rparr>)]
            [] (Normal (TVector 1 ''x'') (TScalar 2 ''s'') (TScalar 2 ''s'')))
           [''x'' \<mapsto> Vector [Fin 1]] [''s'' \<mapsto> Fin 1],
         Call_fit (Distribution 0 [(''x'', \<lparr>Variable.oid = 1, name = ''x'', label = ''x''\<rparr>)]
            [(''s'', ParameterObj \<lparr>Parameter.oid = 2, name = ''s'', label = ''s'', lower = None, upper = None\<rparr>)]
            [] (Normal (TVector 1 ''x'') (TScalar 2 ''s'') (TScalar 2 ''s'')))
           [''x'' \<mapsto> Vector [Fin 1]] [''s'' \<mapsto> Fin 1]]
        init_state))
     (Compiled 0 ''logp_compiled'') = 1"
proof -
  let ?M = "\<lambda>(f :: val list \<Rightarrow> error + val) (g :: val list \<Rightarrow> error + val list) (x0 :: val list).
              (Inr (x0, ()) :: error + val list \<times> unit)"
  let ?G = "\<lambda>(inputs :: tvar list) (c :: cost) (wrt :: tvar list).
              (Inr (\<lambda>args. Inr []) :: error + grad_callable)"
  let ?d = "Distribution 0 [(''x'', \<lparr>Variable.oid = 1, name = ''x'', label = ''x''\<rparr>)]
            [(''s'', ParameterObj \<lparr>Parameter.oid = 2, name = ''s'', label = ''s'', lower = None, upper = None\<rparr>)]
            [] (Normal (TVector 1 ''x'') (TScalar 2 ''s'') (TScalar 2 ''s''))"
  let ?data = "[''x'' \<mapsto> Vector [Fin 1]]"
  let ?init = "[''s'' \<mapsto> Fin 1]"
  let ?st1 = "snd (fit ?M ?G ?d ?data ?init init_state)"
  have vp: "get_vars_pars ?d = ([TVector 1 ''x''], [TScalar 2 ''s''])"
    by (simp add: get_vars_pars_def Variable_tvar_def Parameter_tvar_def)
  have lv: "set ([TVector 1 ''x''] @ [TScalar 2 ''s'']) = set (leaves (logp ?d))"
    by (auto simp: bound_def alltrue_def)
  have c: "theano_function ([TVector 1 ''x''] @ [TScalar 2 ''s'']) (NegSum (logp ?d))
      = Inr (call ([TVector 1 ''x''] @ [TScalar 2 ''s'']) (logp ?d))"
    by (rule theano_function_Inr [OF _ lv]) simp
  have lc: "\<exists>c. fst (logp_compiled ?d init_state) = Inr c"
    using logp_compiled_Inr [OF _ vp c, of init_state] by (simp add: init_state_def)
  have gc: "\<exists>g. fst (grad_compiled ?G ?d st) = Inr g" for st
    by (cases rule: grad_compiled_cases [where st = st and d = ?d and G = ?G])
       (simp_all add: grad_compiled_def memoize_def grad_body_def vp)
  have v: "data_args_loop (get_vars ?d) ?data [] = Inr [Vector [Fin 1]]"
    by simp
  have p: "x0_loop (get_params ?d) ?init [] = Inr [Fin 1]"
    by simp
  have "\<exists>r. fst (fit ?M ?G ?d ?data ?init init_state) = Inr r"
    using lc gc [of "snd (logp_compiled ?d init_state)"]
    unfolding fit_def Let_def v p
    by (auto split: prod.splits sum.splits)
  then obtain r where "fst (fit ?M ?G ?d ?data ?init init_state) = Inr r" ..
  then have ok: "fit ?M ?G ?d ?data ?init (run ?M ?G [] init_state) = (Inr r, ?st1)"
    by (simp add: run_def prod_eq_iff)
  have two: "run ?M ?G [Call_fit ?d ?data ?init, Call_fit ?d ?data ?init] init_state
      = run ?M ?G [Call_fit ?d ?data ?init] ?st1"
    by (simp add: run_def)
  have "count_list (trace (run ?M ?G [Call_fit ?d ?data ?init] ?st1))
          (Compiled (did ?d) ''logp_compiled'') = 1"
    using compile_at_most_once [where minimize = ?M and G = ?G and calls = "[]" and d = ?d
        and data = ?data and init = ?init and r = r and ?st1.0 = ?st1
        and calls' = "[Call_fit ?d ?data ?init]"] ok
    by blast
  then show ?thesis
    unfolding two by simp
qed

text \<open>
  C8 as stated fails at an instance whose compilation raises: nothing is cached, and the
  second call of \<open>logp_compiled\<close> on the instance returns no cached callable but runs
  the engine again, and raises again.
\<close>

theorem failed_compile_runs_again_counterexample:
  "fst (logp_compiled
     (Distribution 0 [(''x'', \<lparr>Variable.oid = 1, name = ''x'', label = ''x''\<rparr>)]
        [(''lo'', ParameterObj \<lparr>Parameter.oid = 2, name = ''lo'', label = ''lo'', lower = None, upper = None\<rparr>),
         (''up'', ParameterObj \<lparr>Parameter.oid = 3, name = ''up'', label = ''up'', lower = None, upper = None\<rparr>)]
        [] (Uniform (TVector 1 ''x'') (TScalar 2 ''lo'') (TScalar 3 ''up'')))
     (run (\<lambda>f g x0. Inr (x0, ())) (\<lambda>inputs c wrt. Inr (\<lambda>args. Inr []))
        [Call_logp_compiled
          (Distribution 0 [(''x'', \<lparr>Variable.oid = 1, name = ''x'', label = ''x''\<rparr>)]
            [(''lo'', ParameterObj \<lparr>Parameter.oid = 2, name = ''lo'', label = ''lo'', lower = None, upper = None\<rparr>),
             (''up'', ParameterObj \<lparr>Parameter.oid = 3, name = ''up'', label = ''up'', lower = None, upper = None\<rparr>)]
            [] (Uniform (TVector 1 ''x'') (TScalar 2 ''lo'') (TScalar 3 ''up'')))]
        init_state))
   = Inl (UnusedInputError (TVector 1 ''x''))
   \<and> trace (run (\<lambda>f g x0. Inr (x0, ())) (\<lambda>inputs c wrt. Inr (\<lambda>args. Inr []))
        [Call_logp_compiled
          (Distribution 0 [(''x'', \<lparr>Variable.oid = 1, name = ''x'', label = ''x''\<rparr>)]
            [(''lo'', ParameterObj \<lparr>Parameter.oid = 2, name = ''lo'', label = ''lo'', lower = None, upper = None\<rparr>),
             (''up'', ParameterObj \<lparr>Parameter.oid = 3, name = ''up'', label = ''up'', lower = None, upper = None\<rparr>)]
            [] (Uniform (TVector 1 ''x'') (TScalar 2 ''lo'') (TScalar 3 ''up''))),
         Call_logp_compiled
          (Distribution 0 [(''x'', \<lparr>Variable.oid = 1, name = ''x'', label = ''x''\<rparr>)]
            [(''lo'', ParameterObj \<lparr>Parameter.oid = 2, name = ''lo'', label = ''lo'', lower = None, upper = None\<rparr>),
             (''up'', ParameterObj \<lparr>Parameter.oid = 3, name = ''up'', label = ''up'', lower = None, upper = None\<rparr>)]
            [] (Uniform (TVector 1 ''x'') (TScalar 2 ''lo'') (TScalar 3 ''up'')))]
        init_state)
     = [Logged ''Compiling logp...'', Logged ''Compiling logp...'']"
proof -
  let ?M = "\<lambda>(f :: val list \<Rightarrow> error + val) (g :: val list \<Rightarrow> error + val list) (x0 :: val list).
              (Inr (x0, ()) :: error + val list \<times> unit)"
  let ?G = "\<lambda>(inputs :: tvar list) (c :: cost) (wrt :: tvar list).
              (Inr (\<lambda>args. Inr []) :: error + grad_callable)"
  let ?x = "\<lparr>Variable.oid = 1, name = ''x'', label = ''x''\<rparr>"
  let ?lo = "\<lparr>Parameter.oid = 2, name = ''lo'', label = ''lo'', lower = None, upper = None\<rparr>"
  let ?up = "\<lparr>Parameter.oid = 3, name = ''up'', label = ''up'', lower = None, upper = None\<rparr>"
  let ?d = "Distribution 0 [(''x'', ?x)] [(''lo'', ParameterObj ?lo), (''up'', ParameterObj ?up)] []
        (Uniform (TVector 1 ''x'') (TScalar 2 ''lo'') (TScalar 3 ''up''))"
  have c: "Uniform_init 0 ?x (Some (PyParameter ?lo)) (Some (PyParameter ?up)) = Inr ?d"
    by (simp add: Uniform_init_Parameters Variable_tvar_def Parameter_tvar_def)
  note u = Uniform_unused_input [OF c]
  have lc: "logp_compiled ?d st
      = (Inl (UnusedInputError (TVector 1 ''x'')), emit (Logged ''Compiling logp...'') st)"
    if "logp_cache st 0 = None" for st
    using logp_compiled_Inl [OF _ _ u(4), of st] that by (simp add: Variable_tvar_def)
  have one: "logp_compiled ?d init_state
      = (Inl (UnusedInputError (TVector 1 ''x'')), emit (Logged ''Compiling logp...'') init_state)"
    by (rule lc) (simp add: init_state_def)
  have two: "logp_compiled ?d (emit (Logged ''Compiling logp...'') init_state)
      = (Inl (UnusedInputError (TVector 1 ''x'')),
         emit (Logged ''Compiling logp...'') (emit (Logged ''Compiling logp...'') init_state))"
    by (rule lc) (simp add: init_state_def)
  show ?thesis
    unfolding run_def foldl.simps step.simps one two snd_conv fst_conv
    by (simp add: emit_def init_state_def)
qed

end
